theory Spec2Isabelle
  imports Main
begin

section \<open>Text, dictionaries and observable events\<close>

text \<open>
  Python text is modelled as \<^typ>\<open>string\<close>, each \<^typ>\<open>char\<close> read as the code point of
  the same number (0 to 255). \<open>isspace\<close>, \<open>strip\<close> and \<open>lower\<close> are Python's
  \<^verbatim>\<open>str.isspace\<close>, \<^verbatim>\<open>str.strip()\<close> and \<^verbatim>\<open>str.lower()\<close> on that range.
\<close>

definition isspace :: "char \<Rightarrow> bool" where
  "isspace c =
     (let n = (of_char c :: nat)
      in (9 \<le> n \<and> n \<le> 13) \<or> (28 \<le> n \<and> n \<le> 32) \<or> n = 133 \<or> n = 160)"

definition strip :: "string \<Rightarrow> string" where
  "strip s = rev (dropWhile isspace (rev (dropWhile isspace s)))"

definition lower_char :: "char \<Rightarrow> char" where
  "lower_char c =
     (let n = (of_char c :: nat)
      in if (65 \<le> n \<and> n \<le> 90) \<or> (192 \<le> n \<and> n \<le> 214) \<or> (216 \<le> n \<and> n \<le> 222)
         then char_of (n + 32) else c)"

definition lower :: "string \<Rightarrow> string" where
  "lower s = map lower_char s"

text \<open>\<open>startswith s sub\<close> and \<open>str_in sub s\<close> are \<^verbatim>\<open>s.startswith(sub)\<close> and \<^verbatim>\<open>sub in s\<close>.\<close>

fun startswith :: "string \<Rightarrow> string \<Rightarrow> bool" where
  "startswith s [] = True"
| "startswith [] (c # sub) = False"
| "startswith (d # s) (c # sub) = (d = c \<and> startswith s sub)"

fun str_in :: "string \<Rightarrow> string \<Rightarrow> bool" where
  "str_in sub [] = (sub = [])"
| "str_in sub (d # s) = (startswith (d # s) sub \<or> str_in sub s)"

text \<open>\<open>str_nat n\<close> is \<^verbatim>\<open>str(n)\<close> for a non-negative integer.\<close>

fun str_nat :: "nat \<Rightarrow> string" where
  "str_nat n =
     (if n < 10 then [''0123456789'' ! n]
      else str_nat (n div 10) @ [''0123456789'' ! (n mod 10)])"

text \<open>
  A \<^verbatim>\<open>dict\<close> of strings keeps its keys in insertion order: assigning to a key that is
  present replaces the value in place, assigning to a new key appends it.
\<close>

type_synonym dict = "(string \<times> string) list"

fun dict_set :: "dict \<Rightarrow> string \<Rightarrow> string \<Rightarrow> dict" where
  "dict_set [] k v = [(k, v)]"
| "dict_set ((k', v') # d) k v =
     (if k' = k then (k, v) # d else (k', v') # dict_set d k v)"

definition keys :: "dict \<Rightarrow> string set" where
  "keys d = set (map fst d)"

text \<open>
  What the process can end with other than a normal return: \<^verbatim>\<open>sys.exit(code)\<close>, or a
  \<^verbatim>\<open>KeyError\<close> that nothing catches.
\<close>

datatype error = SystemExit nat | KeyError string

definition dict_get :: "dict \<Rightarrow> string \<Rightarrow> error + string" where
  "dict_get d k = (case map_of d k of None \<Rightarrow> Inl (KeyError k) | Some v \<Rightarrow> Inr v)"

text \<open>
  The tools, requests and response envelopes of the generation backend
  (\<^verbatim>\<open>google.genai.types\<close> and the ADK runner). A field that may be \<^verbatim>\<open>None\<close> is an option;
  \<^verbatim>\<open>response.text\<close> is kept as a field of its own, read as the code reads it.
\<close>

datatype tool = GoogleSearch

datatype part = Part (part_text: "string option")

datatype content = Content (parts: "part list option")

datatype candidate = Candidate (content: "content option")

datatype response = Response (resp_text: "string option") (candidates: "candidate list option")

datatype adk_event = Event (event_content: "content option")

record agent =
  agent_model :: string
  agent_name :: string
  instruction :: string
  agent_tools :: "tool list"

text \<open>
  The events a run shows to the outside, in order: a line printed, a prompt written by
  \<^verbatim>\<open>input\<close>, a \<^verbatim>\<open>time.sleep\<close> of so many seconds, a \<^verbatim>\<open>generate_content\<close> request
  (model, contents, tools of its config if one is passed) and a \<^verbatim>\<open>runner.run\<close> request
  (agent, message text).
\<close>

datatype event =
    Print string
  | Input string
  | Sleep nat
  | GenerateContent string string "tool list option"
  | RunnerRun agent string

text \<open>What a list of events shows: the prompts written, the sleeps taken, and how many
  requests went to the backend.\<close>

fun prompts :: "event list \<Rightarrow> string list" where
  "prompts [] = []"
| "prompts (Input p # evs) = p # prompts evs"
| "prompts (ev # evs) = prompts evs"

fun sleeps :: "event list \<Rightarrow> nat list" where
  "sleeps [] = []"
| "sleeps (Sleep t # evs) = t # sleeps evs"
| "sleeps (ev # evs) = sleeps evs"

fun attempts_made :: "event list \<Rightarrow> nat" where
  "attempts_made [] = 0"
| "attempts_made (GenerateContent m c t # evs) = Suc (attempts_made evs)"
| "attempts_made (RunnerRun a p # evs) = Suc (attempts_made evs)"
| "attempts_made (ev # evs) = attempts_made evs"

text \<open>The agents that \<^verbatim>\<open>runner.run\<close> was called on, in order.\<close>

fun agents_run :: "event list \<Rightarrow> agent list" where
  "agents_run [] = []"
| "agents_run (RunnerRun a p # evs) = a # agents_run evs"
| "agents_run (ev # evs) = agents_run evs"

definition nl :: string where
  "nl = [CHR 0x0A]"

section \<open>Collecting the requirements\<close>

text \<open>
  Standard input is the list of the lines still to be read; \<^verbatim>\<open>input(prompt)\<close> writes the
  prompt, then returns the next line or raises \<^verbatim>\<open>EOFError\<close> (here \<open>None\<close>) when there
  is none.
\<close>

definition py_input :: "string \<Rightarrow> string list \<Rightarrow> string option \<times> string list \<times> event list" where
  "py_input prompt ins =
     (case ins of
        [] \<Rightarrow> (None, [], [Input prompt])
      | l # ls \<Rightarrow> (Some l, ls, [Input prompt]))"

definition choice_prompt :: string where
  "choice_prompt = ''Do you need a player or a coach? (player/coach): ''"

definition invalid_choice :: string where
  "invalid_choice = ''Invalid choice. Please enter 'player' or 'coach'.''"

text \<open>
  The \<^verbatim>\<open>while True\<close> loop of \<^verbatim>\<open>collect_user_requirements\<close> in football_system.py. Each
  round reads one line, so the loop is a recursion on the lines left; at end of input
  \<^verbatim>\<open>choice\<close> is set to the empty string, which takes the exit branch.
\<close>

fun ask_choice :: "string list \<Rightarrow> (error + string) \<times> string list \<times> event list" where
  "ask_choice [] =
     (Inl (SystemExit 1), [],
      [Input choice_prompt, Print ''Exiting due to empty input (EOF).''])"
| "ask_choice (l # ls) =
     (let choice = lower (strip l)
      in if choice \<in> set [''player'', ''coach''] then (Inr choice, ls, [Input choice_prompt])
         else if choice = [] then
           (Inl (SystemExit 1), ls,
            [Input choice_prompt, Print ''Exiting due to empty input (EOF).''])
         else
           (case ask_choice ls of
              (r, ls', evs) \<Rightarrow> (r, ls', Input choice_prompt # Print invalid_choice # evs)))"

text \<open>The same loop in football_system_adk.py: end of input exits at once, anything else
  that is not one of the two tokens is an invalid choice.\<close>

fun ask_choice_adk :: "string list \<Rightarrow> (error + string) \<times> string list \<times> event list" where
  "ask_choice_adk [] = (Inl (SystemExit 1), [], [Input choice_prompt])"
| "ask_choice_adk (l # ls) =
     (let choice = lower (strip l)
      in if choice \<in> set [''player'', ''coach''] then (Inr choice, ls, [Input choice_prompt])
         else
           (case ask_choice_adk ls of
              (r, ls', evs) \<Rightarrow> (r, ls', Input choice_prompt # Print invalid_choice # evs)))"

text \<open>
  The assignments \<^verbatim>\<open>requirements[key] = input(prompt).strip()\<close> of one branch, run in
  order on the list of their (key, prompt) pairs; \<open>None\<close> is the \<^verbatim>\<open>EOFError\<close> that leaves
  the \<^verbatim>\<open>try\<close> block.
\<close>

fun ask_fields ::
  "(string \<times> string) list \<Rightarrow> dict \<Rightarrow> string list \<Rightarrow> dict option \<times> string list \<times> event list" where
  "ask_fields [] requirements ins = (Some requirements, ins, [])"
| "ask_fields ((key, prompt) # kps) requirements ins =
     (case py_input prompt ins of
        (None, ins', ev) \<Rightarrow> (None, ins', ev)
      | (Some l, ins', ev) \<Rightarrow>
          (case ask_fields kps (dict_set requirements key (strip l)) ins' of
             (r, ins'', evs) \<Rightarrow> (r, ins'', ev @ evs)))"

definition player_fields :: "(string \<times> string) list" where
  "player_fields =
     [(''position'', ''Playing position (Goalkeeper, Defender, Midfielder, Forward): ''),
      (''age_range'', ''Preferred age range (e.g., 20-25): ''),
      (''experience'', ''Years of experience (e.g., 3+ years): ''),
      (''style'', ''Playing style or strengths (e.g., defensive, attacking, playmaker): '')]"

definition coach_fields :: "(string \<times> string) list" where
  "coach_fields =
     [(''style'', ''Coaching style (offensive, defensive, balanced): ''),
      (''experience'', ''Experience level (e.g., 5+ years, former player): ''),
      (''age_range'', ''Preferred age range (e.g., 40-50): ''),
      (''focus'', ''Team development focus (youth development, professional level, etc.): '')]"

definition player_fields_adk :: "(string \<times> string) list" where
  "player_fields_adk =
     [(''position'', ''Playing position (e.g., Forward): ''),
      (''age_range'', ''Age range (e.g., 20-25): ''),
      (''experience'', ''Experience (e.g., 3+ years): ''),
      (''style'', ''Playing style (e.g., Attacking): '')]"

definition coach_fields_adk :: "(string \<times> string) list" where
  "coach_fields_adk =
     [(''style'', ''Coaching style (e.g., Defensive): ''),
      (''experience'', ''Experience (e.g., 5+ years): ''),
      (''age_range'', ''Age range (e.g., 40-50): ''),
      (''focus'', ''Focus (e.g., Youth Dev): '')]"

text \<open>\<^verbatim>\<open>collect_user_requirements\<close> of football_system.py.\<close>

definition collect_user_requirements ::
  "string list \<Rightarrow> (error + dict) \<times> string list \<times> event list" where
  "collect_user_requirements ins =
     (let banner = Print (nl @ ''--- Football Player & Coach Recommendation System ---'' @ nl)
      in case ask_choice ins of
           (Inl e, ins', evs) \<Rightarrow> (Inl e, ins', banner # evs)
         | (Inr choice, ins', evs) \<Rightarrow>
             (case ask_fields (if choice = ''player'' then player_fields else coach_fields)
                     [(''type'', choice)] ins' of
                (None, ins'', evs') \<Rightarrow>
                  (Inl (SystemExit 1), ins'', banner # evs @ evs' @ [Print ''Input interrupted.''])
              | (Some requirements, ins'', evs') \<Rightarrow>
                  (Inr requirements, ins'', banner # evs @ evs')))"

text \<open>\<^verbatim>\<open>collect_user_requirements\<close> of football_system_adk.py.\<close>

definition collect_user_requirements_adk ::
  "string list \<Rightarrow> (error + dict) \<times> string list \<times> event list" where
  "collect_user_requirements_adk ins =
     (let banner =
        Print (nl @ ''--- Football Player & Coach Recommendation System (ADK) ---'' @ nl)
      in case ask_choice_adk ins of
           (Inl e, ins', evs) \<Rightarrow> (Inl e, ins', banner # evs)
         | (Inr choice, ins', evs) \<Rightarrow>
             (case ask_fields
                     (if choice = ''player'' then player_fields_adk else coach_fields_adk)
                     [(''type'', choice)] ins' of
                (None, ins'', evs') \<Rightarrow> (Inl (SystemExit 1), ins'', banner # evs @ evs')
              | (Some requirements, ins'', evs') \<Rightarrow>
                  (Inr requirements, ins'', banner # evs @ evs')))"

section \<open>Running one stage with retries\<close>

text \<open>
  The backend is outside the program: given how many requests the process has made so
  far and the request, it either raises an exception (\<open>Inl\<close> of the exception's
  \<^verbatim>\<open>str\<close>) or returns a response. For the ADK runner the response is the list of the
  events it yields; an exception raised while they are read is an exception of the run,
  since the texts gathered so far belong to the attempt and are dropped with it.
\<close>

type_synonym genai_backend = "nat \<Rightarrow> string \<Rightarrow> string \<Rightarrow> tool list option \<Rightarrow> string + response"

type_synonym adk_backend = "nat \<Rightarrow> agent \<Rightarrow> string \<Rightarrow> string + adk_event list"

definition max_retries :: nat where
  "max_retries = 5"

definition base_delay :: nat where
  "base_delay = 10"

definition text_truthy :: "string option \<Rightarrow> bool" where
  "text_truthy t = (case t of None \<Rightarrow> False | Some s \<Rightarrow> s \<noteq> [])"

text \<open>\<^verbatim>\<open>"".join([part.text for part in ps if part.text])\<close>\<close>

definition join_part_texts :: "part list \<Rightarrow> string" where
  "join_part_texts ps =
     concat (map (\<lambda>p. case part_text p of None \<Rightarrow> [] | Some s \<Rightarrow> s)
               (filter (\<lambda>p. text_truthy (part_text p)) ps))"

definition rate_limited :: "string \<Rightarrow> bool" where
  "rate_limited error_str = (str_in ''429'' error_str \<or> str_in ''RESOURCE_EXHAUSTED'' error_str)"

definition rate_limit_warning :: "nat \<Rightarrow> nat \<Rightarrow> string" where
  "rate_limit_warning wait_time attempt =
     ''Warning: Rate limit hit (429). Waiting '' @ str_nat wait_time @
     '' seconds before retry '' @ str_nat (attempt + 1) @ ''/'' @ str_nat max_retries @ ''...''"

text \<open>
  What \<^verbatim>\<open>run_step\<close> makes of a response (football_system.py, after the request). Reading
  \<^verbatim>\<open>.parts\<close> of a first candidate whose content is \<^verbatim>\<open>None\<close> raises an
  \<^verbatim>\<open>AttributeError\<close> inside the \<^verbatim>\<open>try\<close> block: \<open>Inl\<close> of its text.
\<close>

definition no_text_response :: string where
  "no_text_response = ''No text response generated.''"

definition none_has_no_parts :: string where
  "none_has_no_parts =
     [CHR 0x27] @ ''NoneType'' @ [CHR 0x27] @ '' object has no attribute '' @
     [CHR 0x27] @ ''parts'' @ [CHR 0x27]"

definition first_candidate_text :: "response \<Rightarrow> string + string" where
  "first_candidate_text response =
     (case candidates response of
        None \<Rightarrow> Inr no_text_response
      | Some [] \<Rightarrow> Inr no_text_response
      | Some (c # cs) \<Rightarrow>
          (case content c of
             None \<Rightarrow> Inl none_has_no_parts
           | Some ct \<Rightarrow>
               (case parts ct of
                  None \<Rightarrow> Inr no_text_response
                | Some [] \<Rightarrow> Inr no_text_response
                | Some (p # ps) \<Rightarrow> Inr (join_part_texts (p # ps)))))"

definition response_result :: "response \<Rightarrow> string + string" where
  "response_result response =
     (case resp_text response of
        None \<Rightarrow> first_candidate_text response
      | Some t \<Rightarrow> if t \<noteq> [] then Inr t else first_candidate_text response)"

text \<open>
  \<^verbatim>\<open>if tools:\<close> passes a config with the tools; otherwise the request carries no config.
\<close>

definition tools_config :: "tool list option \<Rightarrow> tool list option" where
  "tools_config tools =
     (case tools of None \<Rightarrow> None | Some ts \<Rightarrow> if ts \<noteq> [] then Some ts else None)"

text \<open>
  The \<^verbatim>\<open>for attempt in range(max_retries)\<close> loop of \<^verbatim>\<open>run_step\<close>, on the attempts
  still to run; the empty list is the code after the loop. The result is the text
  returned, the number of requests made so far, and the events in order.
\<close>

fun run_step_attempts ::
  "genai_backend \<Rightarrow> nat \<Rightarrow> string \<Rightarrow> string \<Rightarrow> string \<Rightarrow> tool list option \<Rightarrow> nat list
     \<Rightarrow> string \<times> nat \<times> event list" where
  "run_step_attempts backend n step_name prompt model_name tools [] =
     ([], n,
      [Print (''Error: Failed '' @ step_name @ '' after '' @ str_nat max_retries @
              '' retries due to rate limits.'')])"
| "run_step_attempts backend n step_name prompt model_name tools (attempt # attempts) =
     (let config = tools_config tools
      in case (case backend n model_name prompt config of
                 Inl e \<Rightarrow> Inl e
               | Inr response \<Rightarrow> response_result response) of
           Inr result \<Rightarrow> (result, Suc n, [GenerateContent model_name prompt config])
         | Inl error_str \<Rightarrow>
             if rate_limited error_str then
               (let wait_time = base_delay * 2 ^ attempt
                in case run_step_attempts backend (Suc n) step_name prompt model_name tools
                          attempts of
                     (result, n', evs) \<Rightarrow>
                       (result, n',
                        GenerateContent model_name prompt config #
                        Print (rate_limit_warning wait_time attempt) #
                        Sleep wait_time # evs))
             else
               ([], Suc n,
                [GenerateContent model_name prompt config,
                 Print (''Error during '' @ step_name @ '': '' @ error_str)]))"

definition run_step ::
  "genai_backend \<Rightarrow> nat \<Rightarrow> string \<Rightarrow> string \<Rightarrow> string \<Rightarrow> tool list option
     \<Rightarrow> string \<times> nat \<times> event list" where
  "run_step backend n step_name prompt model_name tools =
     (case run_step_attempts backend n step_name prompt model_name tools [0..<max_retries] of
        (result, n', evs) \<Rightarrow> (result, n', Print (nl @ ''--- '' @ step_name @ '' ---'') # evs))"

definition default_model_name :: string where
  "default_model_name = ''gemini-2.0-flash-lite-001''"

text \<open>The text \<^verbatim>\<open>run_agent_safe\<close> gathers from the events of one run (football_system_adk.py).\<close>

definition event_texts :: "adk_event \<Rightarrow> string list" where
  "event_texts ev =
     (case event_content ev of
        None \<Rightarrow> []
      | Some ct \<Rightarrow>
          (case parts ct of
             None \<Rightarrow> []
           | Some ps \<Rightarrow>
               map (\<lambda>p. case part_text p of None \<Rightarrow> [] | Some s \<Rightarrow> s)
                 (filter (\<lambda>p. text_truthy (part_text p)) ps)))"

definition full_response :: "adk_event list \<Rightarrow> string list" where
  "full_response events = concat (map event_texts events)"

text \<open>
  The text that a list of events carries, read off the events themselves and apart from
  the gathering above: the texts of the parts of each event, in the order of the events
  and of their parts. An event without content or without parts carries none, and
  neither does a part without text.
\<close>

fun parts_text :: "part list \<Rightarrow> string" where
  "parts_text [] = []"
| "parts_text (Part None # ps) = parts_text ps"
| "parts_text (Part (Some s) # ps) = s @ parts_text ps"

fun events_text :: "adk_event list \<Rightarrow> string" where
  "events_text [] = []"
| "events_text (Event None # evs) = events_text evs"
| "events_text (Event (Some (Content None)) # evs) = events_text evs"
| "events_text (Event (Some (Content (Some ps))) # evs) = parts_text ps @ events_text evs"

fun run_agent_safe_attempts ::
  "adk_backend \<Rightarrow> nat \<Rightarrow> agent \<Rightarrow> string \<Rightarrow> string \<Rightarrow> nat list \<Rightarrow> string \<times> nat \<times> event list" where
  "run_agent_safe_attempts backend n agent prompt step_name [] =
     ([], n,
      [Print (''Error: Failed '' @ step_name @ '' after '' @ str_nat max_retries @ '' retries.'')])"
| "run_agent_safe_attempts backend n agent prompt step_name (attempt # attempts) =
     (case backend n agent prompt of
        Inr events \<Rightarrow>
          (let result = concat (full_response events)
           in if result = [] then (''No response generated.'', Suc n, [RunnerRun agent prompt])
              else (result, Suc n, [RunnerRun agent prompt]))
      | Inl error_str \<Rightarrow>
          if rate_limited error_str then
            (let wait_time = base_delay * 2 ^ attempt
             in case run_agent_safe_attempts backend (Suc n) agent prompt step_name attempts of
                  (result, n', evs) \<Rightarrow>
                    (result, n',
                     RunnerRun agent prompt #
                     Print (rate_limit_warning wait_time attempt) #
                     Sleep wait_time # evs))
          else if str_in ''404'' error_str \<and> str_in ''not found'' error_str then
            ([], Suc n,
             [RunnerRun agent prompt,
              Print (''Error: Model '' @ agent_model agent @
                     '' not found. Please check model availability.'')])
          else
            ([], Suc n,
             [RunnerRun agent prompt,
              Print (''Error during '' @ step_name @ '': '' @ error_str)]))"

definition run_agent_safe ::
  "adk_backend \<Rightarrow> nat \<Rightarrow> agent \<Rightarrow> string \<Rightarrow> string \<Rightarrow> string \<times> nat \<times> event list" where
  "run_agent_safe backend n agent prompt step_name =
     (case run_agent_safe_attempts backend n agent prompt step_name [0..<max_retries] of
        (result, n', evs) \<Rightarrow> (result, n', Print (nl @ ''--- '' @ step_name @ '' ---'') # evs))"

section \<open>The pipeline\<close>

text \<open>
  \<^verbatim>\<open>str\<close> of a dictionary of strings, as an f-string renders \<^verbatim>\<open>{user_reqs}\<close>. Python's
  \<^verbatim>\<open>repr\<close> of a string (its quoting and escapes) is the parameter \<open>repr\<close>.
\<close>

fun join :: "string \<Rightarrow> string list \<Rightarrow> string" where
  "join sep [] = []"
| "join sep [x] = x"
| "join sep (x # y # zs) = x @ sep @ join sep (y # zs)"

definition str_dict :: "(string \<Rightarrow> string) \<Rightarrow> dict \<Rightarrow> string" where
  "str_dict repr d = ''{'' @ join '', '' (map (\<lambda>(k, v). repr k @ '': '' @ repr v) d) @ ''}''"

text \<open>
  The local variables of \<^verbatim>\<open>main\<close>, with the number of requests the process has made
  and the events so far. \<^verbatim>\<open>data_out\<close>, \<^verbatim>\<open>score_out\<close> and \<^verbatim>\<open>final_out\<close> of
  football_system_adk.py are the fields \<open>data_output\<close>, \<open>scored_output\<close> and
  \<open>final_output\<close>. A variable not yet assigned holds the empty text; no statement reads
  one before its assignment.
\<close>

record locals =
  user_reqs :: dict
  data_output :: string
  scored_output :: string
  final_output :: string
  requests :: nat
  trace :: "event list"

type_synonym 'a outcome = "(error \<times> event list) + 'a"

text \<open>The locals when the requirements have just been collected, \<open>evs\<close> being the events
  so far.\<close>

definition initial_locals :: "dict \<Rightarrow> event list \<Rightarrow> locals" where
  "initial_locals reqs evs =
     \<lparr>user_reqs = reqs, data_output = [], scored_output = [], final_output = [],
      requests = 0, trace = evs\<rparr>"

subsection \<open>football_system.py\<close>

definition search_prompt :: "dict \<Rightarrow> error + string" where
  "search_prompt reqs =
     (case dict_get reqs ''type'' of
        Inl e \<Rightarrow> Inl e
      | Inr ty \<Rightarrow>
          if ty = ''player'' then
            (case dict_get reqs ''position'' of Inl e \<Rightarrow> Inl e | Inr position \<Rightarrow>
             case dict_get reqs ''age_range'' of Inl e \<Rightarrow> Inl e | Inr age_range \<Rightarrow>
             case dict_get reqs ''experience'' of Inl e \<Rightarrow> Inl e | Inr experience \<Rightarrow>
             case dict_get reqs ''style'' of Inl e \<Rightarrow> Inl e | Inr style \<Rightarrow>
               Inr (nl @
                 ''        Act as a Data Retrieval Agent. Find currently active football players who match these criteria:'' @ nl @
                 ''        - Position: '' @ position @ nl @
                 ''        - Age: '' @ age_range @ nl @
                 ''        - Experience: '' @ experience @ nl @
                 ''        - Style: '' @ style @ nl @
                 ''        '' @ nl @
                 ''        Use Google Search to find REAL, CURRENT data. '' @ nl @
                 ''        List at least 5-7 potential candidates with their current team, key stats from the last season, and market value.'' @ nl @
                 ''        ''))
          else
            (case dict_get reqs ''style'' of Inl e \<Rightarrow> Inl e | Inr style \<Rightarrow>
             case dict_get reqs ''experience'' of Inl e \<Rightarrow> Inl e | Inr experience \<Rightarrow>
             case dict_get reqs ''age_range'' of Inl e \<Rightarrow> Inl e | Inr age_range \<Rightarrow>
             case dict_get reqs ''focus'' of Inl e \<Rightarrow> Inl e | Inr focus \<Rightarrow>
               Inr (nl @
                 ''        Act as a Data Retrieval Agent. Find football coaches matching these criteria:'' @ nl @
                 ''        - Style: '' @ style @ nl @
                 ''        - Experience: '' @ experience @ nl @
                 ''        - Age: '' @ age_range @ nl @
                 ''        - Focus: '' @ focus @ nl @
                 ''        '' @ nl @
                 ''        Use Google Search to find REAL, CURRENT data.'' @ nl @
                 ''        List at least 5-7 potential candidates with their current status, recent achievements, and tactical preferences.'' @ nl @
                 ''        '')))"

definition scoring_prompt :: "(string \<Rightarrow> string) \<Rightarrow> dict \<Rightarrow> string \<Rightarrow> string" where
  "scoring_prompt repr reqs data =
     nl @
     ''    Act as a Football Scout/Coach (Scoring Agent).'' @ nl @
     ''    Analyze these candidates based on the user requirements: '' @ str_dict repr reqs @ nl @
     ''    '' @ nl @
     ''    Candidate Data:'' @ nl @
     ''    '' @ data @ nl @
     ''    '' @ nl @
     ''    Task:'' @ nl @
     ''    Assign a score (0-100) to each candidate based on:'' @ nl @
     ''    1. Performance Consistency'' @ nl @
     ''    2. Skill/Tactical Fit'' @ nl @
     ''    3. Experience'' @ nl @
     ''    '' @ nl @
     ''    Provide the list with scores and a brief 1-sentence justification for the score.'' @ nl @
     ''    ''"

definition ranking_prompt :: "string \<Rightarrow> string" where
  "ranking_prompt scored =
     nl @
     ''    Act as a Recommendation Agent.'' @ nl @
     ''    Based on these scored candidates:'' @ nl @
     ''    '' @ scored @ nl @
     ''    '' @ nl @
     ''    Task:'' @ nl @
     ''    1. Select the Top 5.'' @ nl @
     ''    2. Format the output nicely for the user. '' @ nl @
     ''    3. For each recommendation include: Name, Current Team, key reason for recommendation, and final score.'' @ nl @
     ''    ''"

definition search_warning :: string where
  "search_warning =
     ''Warning: Search failed to return useful text. The system might hallucinate or fail.''"

text \<open>Step 2 of \<^verbatim>\<open>main\<close>: the search prompt, the request with the search tool, the feedback
  line and the warning on an empty or no-text result.\<close>

definition retrieve :: "genai_backend \<Rightarrow> locals \<Rightarrow> locals outcome" where
  "retrieve backend s =
     (case search_prompt (user_reqs s) of
        Inl e \<Rightarrow> Inl (e, trace s)
      | Inr prompt \<Rightarrow>
          (case run_step backend (requests s) ''Step 2: Retrieving Data'' prompt
                  default_model_name (Some [GoogleSearch]) of
             (result, n, evs) \<Rightarrow>
               Inr (s\<lparr>data_output := result, requests := n,
                      trace := trace s @ evs @ [Print ''search result received''] @
                        (if result = [] \<or> str_in ''No text response'' result
                         then [Print search_warning] else [])\<rparr>)))"

text \<open>Step 3 of \<^verbatim>\<open>main\<close>.\<close>

definition score :: "(string \<Rightarrow> string) \<Rightarrow> genai_backend \<Rightarrow> locals \<Rightarrow> locals" where
  "score repr backend s =
     (case run_step backend (requests s) ''Step 3: Scoring Candidates''
             (scoring_prompt repr (user_reqs s) (data_output s)) default_model_name None of
        (result, n, evs) \<Rightarrow>
          s\<lparr>scored_output := result, requests := n, trace := trace s @ evs @ [Print result]\<rparr>)"

text \<open>Step 4 of \<^verbatim>\<open>main\<close>.\<close>

definition rank :: "genai_backend \<Rightarrow> locals \<Rightarrow> locals" where
  "rank backend s =
     (case run_step backend (requests s) ''Step 4: Final Recommendations''
             (ranking_prompt (scored_output s)) default_model_name None of
        (result, n, evs) \<Rightarrow>
          s\<lparr>final_output := result, requests := n,
            trace := trace s @ evs @
              [Print (nl @ replicate 30 CHR ''=''), Print ''FINAL RECOMMENDATIONS'',
               Print (replicate 30 CHR ''=''), Print result]\<rparr>)"

definition main :: "(string \<Rightarrow> string) \<Rightarrow> genai_backend \<Rightarrow> string list \<Rightarrow> locals outcome" where
  "main repr backend ins =
     (case collect_user_requirements ins of
        (Inl e, ins', evs) \<Rightarrow> Inl (e, evs)
      | (Inr reqs, ins', evs) \<Rightarrow>
          (case retrieve backend
                  (initial_locals reqs
                     (evs @ [Print (nl @ ''Collected Requirements: '' @ str_dict repr reqs)])) of
             Inl x \<Rightarrow> Inl x
           | Inr s \<Rightarrow> Inr (rank backend (score repr backend s))))"

subsection \<open>football_system_adk.py\<close>

definition MODEL_NAME :: string where
  "MODEL_NAME = ''gemini-2.5-flash''"

definition DATA_RETRIEVAL_INSTRUCTIONS :: string where
  "DATA_RETRIEVAL_INSTRUCTIONS =
     nl @
     ''You are a Data Retrieval Agent. Search for REAL, ACTIVE football candidates matching the user's criteria.'' @ nl @
     ''Output the data in this exact format for each candidate:'' @ nl @
     ''- Name: [Name]'' @ nl @
     ''- Team/Status: [Current Team or Status]'' @ nl @
     ''- Age: [Age]'' @ nl @
     ''- Key Stats/Achievements: [Stats]'' @ nl @
     ''- Market Value: [Value/Salary]'' @ nl"

definition SCORING_INSTRUCTIONS :: string where
  "SCORING_INSTRUCTIONS =
     nl @
     ''You are a Scout. Analyze the candidates provided.'' @ nl @
     ''Assign a score (0-100) based on:'' @ nl @
     ''1. Fit for requirements'' @ nl @
     ''2. Recent form/performance'' @ nl @
     ''3. Long-term potential'' @ nl @
     nl @
     ''Output:'' @ nl @
     ''[Name] - Score: [Score]'' @ nl @
     ''Justification: [Brief reason]'' @ nl"

definition RANKING_INSTRUCTIONS :: string where
  "RANKING_INSTRUCTIONS =
     nl @
     ''You are a Head Scout. Select the TOP 5 candidates.'' @ nl @
     ''Present them in a clear, text-based table structure.'' @ nl @
     ''Columns: Rank | Name | Score | Key Strength | Current Team'' @ nl"

definition data_agent :: agent where
  "data_agent =
     \<lparr>agent_model = MODEL_NAME, agent_name = ''data_agent'',
      instruction = DATA_RETRIEVAL_INSTRUCTIONS, agent_tools = [GoogleSearch]\<rparr>"

definition scoring_agent :: agent where
  "scoring_agent =
     \<lparr>agent_model = MODEL_NAME, agent_name = ''scoring_agent'',
      instruction = SCORING_INSTRUCTIONS, agent_tools = []\<rparr>"

definition ranking_agent :: agent where
  "ranking_agent =
     \<lparr>agent_model = MODEL_NAME, agent_name = ''ranking_agent'',
      instruction = RANKING_INSTRUCTIONS, agent_tools = []\<rparr>"

text \<open>
  \<^verbatim>\<open>key.capitalize()\<close> and the \<^verbatim>\<open>:<15\<close> format of \<^verbatim>\<open>print_structured_requirements\<close>.
  \<open>upper_char\<close> covers the letters whose capital is a single code point below 256,
  which includes every key the collector writes.
\<close>

definition upper_char :: "char \<Rightarrow> char" where
  "upper_char c =
     (let n = (of_char c :: nat)
      in if (97 \<le> n \<and> n \<le> 122) \<or> (224 \<le> n \<and> n \<le> 246) \<or> (248 \<le> n \<and> n \<le> 254)
         then char_of (n - 32) else c)"

definition capitalize :: "string \<Rightarrow> string" where
  "capitalize s = (case s of [] \<Rightarrow> [] | c # cs \<Rightarrow> upper_char c # lower cs)"

definition ljust :: "nat \<Rightarrow> string \<Rightarrow> string" where
  "ljust w s = s @ replicate (w - length s) CHR '' ''"

definition print_structured_requirements :: "dict \<Rightarrow> event list" where
  "print_structured_requirements reqs =
     [Print (nl @ replicate 40 CHR ''=''), Print '' PLAYER / COACH REQUIREMENTS'',
      Print (replicate 40 CHR ''='')] @
     map (\<lambda>(key, val). Print (ljust 15 (capitalize key) @ '': '' @ val)) reqs @
     [Print (replicate 40 CHR ''='' @ nl)]"

definition search_prompt_adk :: "dict \<Rightarrow> error + string" where
  "search_prompt_adk reqs =
     (case dict_get reqs ''type'' of
        Inl e \<Rightarrow> Inl e
      | Inr ty \<Rightarrow>
          if ty = ''player'' then
            (case dict_get reqs ''position'' of Inl e \<Rightarrow> Inl e | Inr position \<Rightarrow>
             case dict_get reqs ''age_range'' of Inl e \<Rightarrow> Inl e | Inr age_range \<Rightarrow>
             case dict_get reqs ''experience'' of Inl e \<Rightarrow> Inl e | Inr experience \<Rightarrow>
             case dict_get reqs ''style'' of Inl e \<Rightarrow> Inl e | Inr style \<Rightarrow>
               Inr (''Find 5-7 active football players: Position '' @ position @
                    '', Age '' @ age_range @ '', Experience '' @ experience @
                    '', Style '' @ style @ ''.''))
          else
            (case dict_get reqs ''style'' of Inl e \<Rightarrow> Inl e | Inr style \<Rightarrow>
             case dict_get reqs ''experience'' of Inl e \<Rightarrow> Inl e | Inr experience \<Rightarrow>
             case dict_get reqs ''age_range'' of Inl e \<Rightarrow> Inl e | Inr age_range \<Rightarrow>
             case dict_get reqs ''focus'' of Inl e \<Rightarrow> Inl e | Inr focus \<Rightarrow>
               Inr (''Find 5-7 football coaches: Style '' @ style @
                    '', Experience '' @ experience @ '', Age '' @ age_range @
                    '', Focus '' @ focus @ ''.'')))"

definition scoring_prompt_adk :: "(string \<Rightarrow> string) \<Rightarrow> dict \<Rightarrow> string \<Rightarrow> string" where
  "scoring_prompt_adk repr reqs data =
     ''User Requirements: '' @ str_dict repr reqs @ nl @ ''Candidates:'' @ nl @ data"

definition ranking_prompt_adk :: "string \<Rightarrow> string" where
  "ranking_prompt_adk scored = ''Rank these candidates:'' @ nl @ scored"

text \<open>The three stages of \<^verbatim>\<open>main\<close>: each is one \<^verbatim>\<open>run_agent_safe\<close> call and the assignment
  of its result.\<close>

definition retrieve_adk :: "adk_backend \<Rightarrow> locals \<Rightarrow> locals outcome" where
  "retrieve_adk backend s =
     (case search_prompt_adk (user_reqs s) of
        Inl e \<Rightarrow> Inl (e, trace s)
      | Inr prompt \<Rightarrow>
          (case run_agent_safe backend (requests s) data_agent prompt ''Retrieving Data'' of
             (result, n, evs) \<Rightarrow>
               Inr (s\<lparr>data_output := result, requests := n, trace := trace s @ evs\<rparr>)))"

definition score_adk :: "(string \<Rightarrow> string) \<Rightarrow> adk_backend \<Rightarrow> locals \<Rightarrow> locals" where
  "score_adk repr backend s =
     (case run_agent_safe backend (requests s) scoring_agent
             (scoring_prompt_adk repr (user_reqs s) (data_output s)) ''Scoring Candidates'' of
        (result, n, evs) \<Rightarrow>
          s\<lparr>scored_output := result, requests := n, trace := trace s @ evs\<rparr>)"

definition rank_adk :: "adk_backend \<Rightarrow> locals \<Rightarrow> locals" where
  "rank_adk backend s =
     (case run_agent_safe backend (requests s) ranking_agent
             (ranking_prompt_adk (scored_output s)) ''Ranking & Recommendations'' of
        (result, n, evs) \<Rightarrow>
          s\<lparr>final_output := result, requests := n,
            trace := trace s @ evs @
              [Print (nl @ replicate 40 CHR ''=''), Print '' FINAL RECOMMENDATIONS'',
               Print (replicate 40 CHR ''=''), Print result]\<rparr>)"

text \<open>\<^verbatim>\<open>main\<close> of football_system_adk.py, with its two early returns.\<close>

definition main_adk :: "(string \<Rightarrow> string) \<Rightarrow> adk_backend \<Rightarrow> string list \<Rightarrow> locals outcome" where
  "main_adk repr backend ins =
     (case collect_user_requirements_adk ins of
        (Inl e, ins', evs) \<Rightarrow> Inl (e, evs)
      | (Inr reqs, ins', evs) \<Rightarrow>
          (case retrieve_adk backend
                  (initial_locals reqs (evs @ print_structured_requirements reqs)) of
             Inl x \<Rightarrow> Inl x
           | Inr s1 \<Rightarrow>
               if data_output s1 = [] then Inr s1
               else
                 (let s2 = score_adk repr backend s1
                  in if scored_output s2 = [] then Inr s2
                     else Inr (rank_adk backend s2))))"

section \<open>Sample inputs and backends\<close>

text \<open>
  Backends used to run the stages on concrete inputs: one that always answers with a
  rate-limit error, one that always fails with a server error, one that fails with a
  server error after one rate-limit error, one whose first answer is a rate-limit error
  and whose later answers are a given text (or, for the runner, given events), and one
  whose answer has a single part without text.
\<close>

text \<open>Five lines of input for a player, and the requirements collected from them.\<close>

definition sample_lines :: "string list" where
  "sample_lines = [''  PLAYER '', ''Forward'', ''20-25'', ''3+ years'', ''Attacking'']"

definition sample_requirements :: dict where
  "sample_requirements =
     [(''type'', ''player''), (''position'', ''Forward''), (''age_range'', ''20-25''),
      (''experience'', ''3+ years''), (''style'', ''Attacking'')]"

text \<open>\<^verbatim>\<open>repr\<close> of a string that has no quote, backslash or control character in it: the
  string between single quotes.\<close>

definition plain_repr :: "string \<Rightarrow> string" where
  "plain_repr s = [CHR 0x27] @ s @ [CHR 0x27]"

definition always_rate_limited :: genai_backend where
  "always_rate_limited = (\<lambda>n model_name prompt config. Inl ''429 RESOURCE_EXHAUSTED'')"

definition always_rate_limited_adk :: adk_backend where
  "always_rate_limited_adk = (\<lambda>n agent prompt. Inl ''429 RESOURCE_EXHAUSTED'')"

definition always_unavailable :: genai_backend where
  "always_unavailable = (\<lambda>n model_name prompt config. Inl ''503 UNAVAILABLE'')"

definition always_unavailable_adk :: adk_backend where
  "always_unavailable_adk = (\<lambda>n agent prompt. Inl ''503 UNAVAILABLE'')"

definition limited_then_unavailable :: genai_backend where
  "limited_then_unavailable =
     (\<lambda>n model_name prompt config.
        if n = 0 then Inl ''429 RESOURCE_EXHAUSTED'' else Inl ''503 UNAVAILABLE'')"

definition limited_then_unavailable_adk :: adk_backend where
  "limited_then_unavailable_adk =
     (\<lambda>n agent prompt. if n = 0 then Inl ''429 RESOURCE_EXHAUSTED'' else Inl ''503 UNAVAILABLE'')"

definition limited_once :: "string \<Rightarrow> genai_backend" where
  "limited_once t =
     (\<lambda>n model_name prompt config.
        if n = 0 then Inl ''429 RESOURCE_EXHAUSTED'' else Inr (Response (Some t) None))"

definition limited_once_adk :: "string \<Rightarrow> adk_backend" where
  "limited_once_adk t =
     (\<lambda>n agent prompt.
        if n = 0 then Inl ''429 RESOURCE_EXHAUSTED''
        else Inr [Event (Some (Content (Some [Part (Some t)])))])"

definition limited_once_events :: "adk_event list \<Rightarrow> adk_backend" where
  "limited_once_events events =
     (\<lambda>n agent prompt. if n = 0 then Inl ''429 RESOURCE_EXHAUSTED'' else Inr events)"

definition two_events :: "adk_event list" where
  "two_events =
     [Event (Some (Content (Some [Part (Some ''Lionel ''), Part None]))), Event None,
      Event (Some (Content (Some [Part (Some ''Messi'')])))]"

definition textless_response :: response where
  "textless_response = Response None (Some [Candidate (Some (Content (Some [Part None])))])"

definition textless_backend :: genai_backend where
  "textless_backend = (\<lambda>n model_name prompt config. Inr textless_response)"

definition textless_backend_adk :: adk_backend where
  "textless_backend_adk = (\<lambda>n agent prompt. Inr [Event (Some (Content (Some [Part None])))])"

section \<open>Facts about the collector\<close>

lemma dict_set_keys: "keys (dict_set d k v) = insert k (keys d)"
  unfolding keys_def by (induction d) (force split: if_splits)+

lemma map_of_dict_set: "map_of (dict_set d k v) k' = (if k' = k then Some v else map_of d k')"
  by (induction d) auto

lemma ask_choice_Inr:
  "ask_choice ins = (Inr c, ins', evs) \<Longrightarrow> c = ''player'' \<or> c = ''coach''"
proof (induction ins arbitrary: ins' evs)
  case Nil
  then show ?case by simp
next
  case (Cons l ls)
  then show ?case
    by (auto simp: Let_def split: if_splits prod.splits)
qed

lemma ask_choice_adk_Inr:
  "ask_choice_adk ins = (Inr c, ins', evs) \<Longrightarrow> c = ''player'' \<or> c = ''coach''"
proof (induction ins arbitrary: ins' evs)
  case Nil
  then show ?case by simp
next
  case (Cons l ls)
  then show ?case
    by (auto simp: Let_def split: if_splits prod.splits)
qed

lemma ask_fields_keys:
  "ask_fields kps d ins = (Some m, ins', evs) \<Longrightarrow> keys m = keys d \<union> fst ` set kps"
proof (induction kps arbitrary: d ins ins' evs)
  case Nil
  then show ?case by simp
next
  case (Cons kp kps)
  obtain key prompt where kp: "kp = (key, prompt)" by (cases kp)
  from Cons.prems obtain l ls where ins: "ins = l # ls"
    by (cases ins) (auto simp: kp py_input_def)
  with Cons.prems kp obtain evs' where
    "ask_fields kps (dict_set d key (strip l)) ls = (Some m, ins', evs')"
    by (auto simp: py_input_def split: prod.splits)
  from Cons.IH [OF this] show ?case
    by (auto simp: kp dict_set_keys)
qed

lemma ask_fields_other:
  "ask_fields kps d ins = (Some m, ins', evs) \<Longrightarrow> k \<notin> fst ` set kps \<Longrightarrow> map_of m k = map_of d k"
proof (induction kps arbitrary: d ins ins' evs)
  case Nil
  then show ?case by simp
next
  case (Cons kp kps)
  obtain key prompt where kp: "kp = (key, prompt)" by (cases kp)
  from Cons.prems obtain l ls where ins: "ins = l # ls"
    by (cases ins) (auto simp: kp py_input_def)
  with Cons.prems kp obtain evs' where
    "ask_fields kps (dict_set d key (strip l)) ls = (Some m, ins', evs')"
    by (auto simp: py_input_def split: prod.splits)
  from Cons.IH [OF this] Cons.prems(2) show ?case
    by (auto simp: kp map_of_dict_set)
qed

lemma collect_Inr:
  assumes "fst (collect_user_requirements ins) = Inr m"
  shows "\<exists>c ins' evs ins'' evs'. ask_choice ins = (Inr c, ins', evs) \<and>
           ask_fields (if c = ''player'' then player_fields else coach_fields)
             [(''type'', c)] ins' = (Some m, ins'', evs')"
proof -
  obtain r ins' evs where ac: "ask_choice ins = (r, ins', evs)"
    by (metis prod_cases3)
  show ?thesis
  proof (cases r)
    case (Inl e)
    with assms ac show ?thesis
      by (simp add: collect_user_requirements_def Let_def)
  next
    case (Inr c)
    obtain r' ins'' evs' where af:
      "ask_fields (if c = ''player'' then player_fields else coach_fields)
         [(''type'', c)] ins' = (r', ins'', evs')"
      by (metis prod_cases3)
    from assms ac Inr af have "r' = Some m"
      by (cases r') (simp_all add: collect_user_requirements_def Let_def)
    with ac Inr af show ?thesis by blast
  qed
qed

lemma collect_adk_Inr:
  assumes "fst (collect_user_requirements_adk ins) = Inr m"
  shows "\<exists>c ins' evs ins'' evs'. ask_choice_adk ins = (Inr c, ins', evs) \<and>
           ask_fields (if c = ''player'' then player_fields_adk else coach_fields_adk)
             [(''type'', c)] ins' = (Some m, ins'', evs')"
proof -
  obtain r ins' evs where ac: "ask_choice_adk ins = (r, ins', evs)"
    by (metis prod_cases3)
  show ?thesis
  proof (cases r)
    case (Inl e)
    with assms ac show ?thesis
      by (simp add: collect_user_requirements_adk_def Let_def)
  next
    case (Inr c)
    obtain r' ins'' evs' where af:
      "ask_fields (if c = ''player'' then player_fields_adk else coach_fields_adk)
         [(''type'', c)] ins' = (r', ins'', evs')"
      by (metis prod_cases3)
    from assms ac Inr af have "r' = Some m"
      by (cases r') (simp_all add: collect_user_requirements_adk_def Let_def)
    with ac Inr af show ?thesis by blast
  qed
qed

lemma collect_player:
  assumes "lower (strip l) = ''player''"
  shows "fst (collect_user_requirements (l # a1 # a2 # a3 # a4 # rest)) =
           Inr [(''type'', ''player''), (''position'', strip a1), (''age_range'', strip a2),
                (''experience'', strip a3), (''style'', strip a4)]"
  using assms by (simp add: collect_user_requirements_def player_fields_def py_input_def Let_def)

lemma collect_adk_player:
  assumes "lower (strip l) = ''player''"
  shows "fst (collect_user_requirements_adk (l # a1 # a2 # a3 # a4 # rest)) =
           Inr [(''type'', ''player''), (''position'', strip a1), (''age_range'', strip a2),
                (''experience'', strip a3), (''style'', strip a4)]"
  using assms by (simp add: collect_user_requirements_adk_def player_fields_adk_def py_input_def Let_def)

lemma collect_coach:
  assumes "lower (strip l) = ''coach''"
  shows "fst (collect_user_requirements (l # a1 # a2 # a3 # a4 # rest)) =
           Inr [(''type'', ''coach''), (''style'', strip a1), (''experience'', strip a2),
                (''age_range'', strip a3), (''focus'', strip a4)]"
  using assms by (simp add: collect_user_requirements_def coach_fields_def py_input_def Let_def)

lemma collect_adk_coach:
  assumes "lower (strip l) = ''coach''"
  shows "fst (collect_user_requirements_adk (l # a1 # a2 # a3 # a4 # rest)) =
           Inr [(''type'', ''coach''), (''style'', strip a1), (''experience'', strip a2),
                (''age_range'', strip a3), (''focus'', strip a4)]"
  using assms by (simp add: collect_user_requirements_adk_def coach_fields_adk_def py_input_def Let_def)

lemma strip_plain: "strip ''player'' = ''player''" "strip ''coach'' = ''coach''"
  "strip '' Forward'' = ''Forward''" "strip ''20-25'' = ''20-25''"
  by (simp_all add: strip_def isspace_def)

lemma lower_plain: "lower ''player'' = ''player''" "lower ''coach'' = ''coach''"
  by (simp_all add: lower_def lower_char_def)

lemma norm_padded: "lower (strip ''  PLAYER '') = ''player''"
  by (simp add: lower_def strip_def isspace_def lower_char_def char_of_eq_iff)

text \<open>
  Claim C4, as the code has it. When the first line, stripped and lowercased, is
  \<open>player\<close> and four more lines follow, both collectors return a dictionary whose keys are
  exactly type, position, age_range, experience and style; type is bound to \<open>player\<close>
  and each other key to its answer with the surrounding whitespace stripped.
\<close>

theorem player_requirements:
  assumes "lower (strip l) = ''player''"
  shows "\<exists>m. fst (collect_user_requirements (l # a1 # a2 # a3 # a4 # rest)) = Inr m \<and>
           fst (collect_user_requirements_adk (l # a1 # a2 # a3 # a4 # rest)) = Inr m \<and>
           keys m = {''type'', ''position'', ''age_range'', ''experience'', ''style''} \<and>
           map_of m ''type'' = Some ''player'' \<and>
           map_of m ''position'' = Some (strip a1) \<and>
           map_of m ''age_range'' = Some (strip a2) \<and>
           map_of m ''experience'' = Some (strip a3) \<and>
           map_of m ''style'' = Some (strip a4)"
  unfolding collect_player [OF assms] collect_adk_player [OF assms]
  by (simp add: keys_def)


theorem player_requirements_witness:
  "lower (strip ''player'') = ''player'' \<and>
   (\<exists>m. fst (collect_user_requirements [''player'', '' Forward'', ''20-25'', ''3+ years'', ''Attacking'']) = Inr m \<and>
        fst (collect_user_requirements_adk [''player'', '' Forward'', ''20-25'', ''3+ years'', ''Attacking'']) = Inr m \<and>
        keys m = {''type'', ''position'', ''age_range'', ''experience'', ''style''} \<and>
        map_of m ''type'' = Some ''player'' \<and>
        map_of m ''position'' = Some ''Forward'')"
proof -
  have h: "lower (strip ''player'') = ''player''"
    by (simp add: strip_plain lower_plain)
  show ?thesis
    using h player_requirements [OF h, of "'' Forward''" "''20-25''" "''3+ years''" "''Attacking''" "[]"]
    by (auto simp: strip_plain)
qed

text \<open>
  An answer is not stored as it was typed: the answer \<open>'' Forward''\<close>, with a leading
  blank, is stored as \<open>''Forward''\<close>.
\<close>

theorem player_answer_literal_counterexample:
  "fst (collect_user_requirements [''player'', '' Forward'', ''20-25'', ''3+ years'', ''Attacking'']) =
     Inr [(''type'', ''player''), (''position'', ''Forward''), (''age_range'', ''20-25''),
          (''experience'', ''3+ years''), (''style'', ''Attacking'')] \<and>
   ''Forward'' \<noteq> '' Forward''"
  by (simp add: collect_user_requirements_def player_fields_def py_input_def Let_def
      strip_def isspace_def lower_def lower_char_def)

lemma collect_keys:
  assumes "fst (collect_user_requirements ins) = Inr m"
  shows "keys m = (if map_of m ''type'' = Some ''coach''
                   then {''type'', ''style'', ''experience'', ''age_range'', ''focus''}
                   else {''type'', ''position'', ''age_range'', ''experience'', ''style''})"
proof -
  from collect_Inr [OF assms] obtain c ins' evs ins'' evs' where
    c: "ask_choice ins = (Inr c, ins', evs)" and
    f: "ask_fields (if c = ''player'' then player_fields else coach_fields)
             [(''type'', c)] ins' = (Some m, ins'', evs')" by blast
  have t: "map_of m ''type'' = map_of [(''type'', c)] ''type''"
    by (rule ask_fields_other [OF f]) (simp add: player_fields_def coach_fields_def)
  from ask_choice_Inr [OF c] ask_fields_keys [OF f] t show ?thesis
    by (auto simp: keys_def player_fields_def coach_fields_def)
qed

lemma collect_adk_keys:
  assumes "fst (collect_user_requirements_adk ins) = Inr m"
  shows "keys m = (if map_of m ''type'' = Some ''coach''
                   then {''type'', ''style'', ''experience'', ''age_range'', ''focus''}
                   else {''type'', ''position'', ''age_range'', ''experience'', ''style''})"
proof -
  from collect_adk_Inr [OF assms] obtain c ins' evs ins'' evs' where
    c: "ask_choice_adk ins = (Inr c, ins', evs)" and
    f: "ask_fields (if c = ''player'' then player_fields_adk else coach_fields_adk)
             [(''type'', c)] ins' = (Some m, ins'', evs')" by blast
  have t: "map_of m ''type'' = map_of [(''type'', c)] ''type''"
    by (rule ask_fields_other [OF f]) (simp add: player_fields_adk_def coach_fields_adk_def)
  from ask_choice_adk_Inr [OF c] ask_fields_keys [OF f] t show ?thesis
    by (auto simp: keys_def player_fields_adk_def coach_fields_adk_def)
qed

lemma collect_type:
  assumes "fst (collect_user_requirements ins) = Inr m"
  shows "map_of m ''type'' = Some ''player'' \<or> map_of m ''type'' = Some ''coach''"
proof -
  from collect_Inr [OF assms] obtain c ins' evs ins'' evs' where
    c: "ask_choice ins = (Inr c, ins', evs)" and
    f: "ask_fields (if c = ''player'' then player_fields else coach_fields)
             [(''type'', c)] ins' = (Some m, ins'', evs')" by blast
  have "map_of m ''type'' = map_of [(''type'', c)] ''type''"
    by (rule ask_fields_other [OF f]) (simp add: player_fields_def coach_fields_def)
  with ask_choice_Inr [OF c] show ?thesis by auto
qed

lemma collect_adk_type:
  assumes "fst (collect_user_requirements_adk ins) = Inr m"
  shows "map_of m ''type'' = Some ''player'' \<or> map_of m ''type'' = Some ''coach''"
proof -
  from collect_adk_Inr [OF assms] obtain c ins' evs ins'' evs' where
    c: "ask_choice_adk ins = (Inr c, ins', evs)" and
    f: "ask_fields (if c = ''player'' then player_fields_adk else coach_fields_adk)
             [(''type'', c)] ins' = (Some m, ins'', evs')" by blast
  have "map_of m ''type'' = map_of [(''type'', c)] ''type''"
    by (rule ask_fields_other [OF f]) (simp add: player_fields_adk_def coach_fields_adk_def)
  with ask_choice_adk_Inr [OF c] show ?thesis by auto
qed

text \<open>
  Claim C5. When the first line, stripped and lowercased, is \<open>coach\<close> and four more lines
  follow, the collector of football_system_adk.py (and that of football_system.py) returns
  a dictionary whose keys are exactly type, style, experience, age_range and focus. On
  every input on which a collector returns, the key set is fixed by the value of type:
  the coach keys for \<open>coach\<close>, the player keys otherwise.
\<close>

theorem coach_requirements_keys:
  "(lower (strip l) = ''coach'' \<longrightarrow>
      (\<exists>m. fst (collect_user_requirements_adk (l # a1 # a2 # a3 # a4 # rest)) = Inr m \<and>
           fst (collect_user_requirements (l # a1 # a2 # a3 # a4 # rest)) = Inr m \<and>
           keys m = {''type'', ''style'', ''experience'', ''age_range'', ''focus''})) \<and>
   (fst (collect_user_requirements_adk ins) = Inr m' \<longrightarrow>
      keys m' = (if map_of m' ''type'' = Some ''coach''
                 then {''type'', ''style'', ''experience'', ''age_range'', ''focus''}
                 else {''type'', ''position'', ''age_range'', ''experience'', ''style''})) \<and>
   (fst (collect_user_requirements ins') = Inr m'' \<longrightarrow>
      keys m'' = (if map_of m'' ''type'' = Some ''coach''
                  then {''type'', ''style'', ''experience'', ''age_range'', ''focus''}
                  else {''type'', ''position'', ''age_range'', ''experience'', ''style''}))"
proof (intro conjI impI)
  assume c: "lower (strip l) = ''coach''"
  show "\<exists>m. fst (collect_user_requirements_adk (l # a1 # a2 # a3 # a4 # rest)) = Inr m \<and>
           fst (collect_user_requirements (l # a1 # a2 # a3 # a4 # rest)) = Inr m \<and>
           keys m = {''type'', ''style'', ''experience'', ''age_range'', ''focus''}"
    unfolding collect_coach [OF c] collect_adk_coach [OF c] by (simp add: keys_def)
next
  assume "fst (collect_user_requirements_adk ins) = Inr m'"
  then show "keys m' = (if map_of m' ''type'' = Some ''coach''
                 then {''type'', ''style'', ''experience'', ''age_range'', ''focus''}
                 else {''type'', ''position'', ''age_range'', ''experience'', ''style''})"
    by (rule collect_adk_keys)
next
  assume "fst (collect_user_requirements ins') = Inr m''"
  then show "keys m'' = (if map_of m'' ''type'' = Some ''coach''
                  then {''type'', ''style'', ''experience'', ''age_range'', ''focus''}
                  else {''type'', ''position'', ''age_range'', ''experience'', ''style''})"
    by (rule collect_keys)
qed

lemma eval_coach:
  "fst (collect_user_requirements_adk [''Coach'', ''Defensive'', ''5+ years'', ''40-50'', ''Youth Dev'']) =
     Inr [(''type'', ''coach''), (''style'', ''Defensive''), (''experience'', ''5+ years''),
          (''age_range'', ''40-50''), (''focus'', ''Youth Dev'')]"
  "fst (collect_user_requirements [''Coach'', ''Defensive'', ''5+ years'', ''40-50'', ''Youth Dev'']) =
     Inr [(''type'', ''coach''), (''style'', ''Defensive''), (''experience'', ''5+ years''),
          (''age_range'', ''40-50''), (''focus'', ''Youth Dev'')]"
  by (simp_all add: collect_user_requirements_def collect_user_requirements_adk_def 
      coach_fields_def coach_fields_adk_def py_input_def Let_def
      strip_def isspace_def lower_def lower_char_def char_of_eq_iff)

theorem coach_requirements_keys_witness:
  "lower (strip ''Coach'') = ''coach'' \<and>
   fst (collect_user_requirements_adk [''Coach'', ''Defensive'', ''5+ years'', ''40-50'', ''Youth Dev'']) =
     Inr [(''type'', ''coach''), (''style'', ''Defensive''), (''experience'', ''5+ years''),
          (''age_range'', ''40-50''), (''focus'', ''Youth Dev'')] \<and>
   fst (collect_user_requirements [''Coach'', ''Defensive'', ''5+ years'', ''40-50'', ''Youth Dev'']) =
     Inr [(''type'', ''coach''), (''style'', ''Defensive''), (''experience'', ''5+ years''),
          (''age_range'', ''40-50''), (''focus'', ''Youth Dev'')] \<and>
   keys [(''type'', ''coach''), (''style'', ''Defensive''), (''experience'', ''5+ years''),
          (''age_range'', ''40-50''), (''focus'', ''Youth Dev'')] =
     {''type'', ''style'', ''experience'', ''age_range'', ''focus''}"
proof -
  have h: "lower (strip ''Coach'') = ''coach''"
    by (simp add: strip_def isspace_def lower_def lower_char_def char_of_eq_iff)
  show ?thesis
    using h eval_coach
      coach_requirements_keys [of "''Coach''" "''Defensive''" "''5+ years''" "''40-50''" "''Youth Dev''" "[]"
        "[''Coach'', ''Defensive'', ''5+ years'', ''40-50'', ''Youth Dev'']"
        "[(''type'', ''coach''), (''style'', ''Defensive''), (''experience'', ''5+ years''),
          (''age_range'', ''40-50''), (''focus'', ''Youth Dev'')]"
        "[''Coach'', ''Defensive'', ''5+ years'', ''40-50'', ''Youth Dev'']"
        "[(''type'', ''coach''), (''style'', ''Defensive''), (''experience'', ''5+ years''),
          (''age_range'', ''40-50''), (''focus'', ''Youth Dev'')]"]
    by simp
qed

text \<open>
  Claim C10. On every input on which a collector returns, the type of the returned
  dictionary is \<open>player\<close> or \<open>coach\<close>. The discriminant line is stripped and lowercased
  before it is matched, and the normalised token is what is stored: a line such as
  \<open>''  PLAYER ''\<close> is accepted and stored as \<open>player\<close>.
\<close>

theorem type_is_normalized:
  "(fst (collect_user_requirements ins) = Inr m \<longrightarrow>
      map_of m ''type'' = Some ''player'' \<or> map_of m ''type'' = Some ''coach'') \<and>
   (fst (collect_user_requirements_adk ins') = Inr m' \<longrightarrow>
      map_of m' ''type'' = Some ''player'' \<or> map_of m' ''type'' = Some ''coach'') \<and>
   (lower (strip l) = ''player'' \<or> lower (strip l) = ''coach'' \<longrightarrow>
      (\<exists>d. fst (collect_user_requirements (l # a1 # a2 # a3 # a4 # rest)) = Inr d \<and>
           fst (collect_user_requirements_adk (l # a1 # a2 # a3 # a4 # rest)) = Inr d \<and>
           map_of d ''type'' = Some (lower (strip l))))"
proof (intro conjI impI)
  assume "fst (collect_user_requirements ins) = Inr m"
  then show "map_of m ''type'' = Some ''player'' \<or> map_of m ''type'' = Some ''coach''"
    by (rule collect_type)
next
  assume "fst (collect_user_requirements_adk ins') = Inr m'"
  then show "map_of m' ''type'' = Some ''player'' \<or> map_of m' ''type'' = Some ''coach''"
    by (rule collect_adk_type)
next
  assume "lower (strip l) = ''player'' \<or> lower (strip l) = ''coach''"
  then show "\<exists>d. fst (collect_user_requirements (l # a1 # a2 # a3 # a4 # rest)) = Inr d \<and>
           fst (collect_user_requirements_adk (l # a1 # a2 # a3 # a4 # rest)) = Inr d \<and>
           map_of d ''type'' = Some (lower (strip l))"
  proof
    assume p: "lower (strip l) = ''player''"
    show ?thesis
      unfolding collect_player [OF p] collect_adk_player [OF p] by (simp add: p)
  next
    assume c: "lower (strip l) = ''coach''"
    show ?thesis
      unfolding collect_coach [OF c] collect_adk_coach [OF c] by (simp add: c)
  qed
qed

lemma eval_padded_player:
  "fst (collect_user_requirements [''  PLAYER '', ''Forward'', ''20-25'', ''3+ years'', ''Attacking'']) =
     Inr [(''type'', ''player''), (''position'', ''Forward''), (''age_range'', ''20-25''),
          (''experience'', ''3+ years''), (''style'', ''Attacking'')]"
  "fst (collect_user_requirements_adk [''  PLAYER '', ''Forward'', ''20-25'', ''3+ years'', ''Attacking'']) =
     Inr [(''type'', ''player''), (''position'', ''Forward''), (''age_range'', ''20-25''),
          (''experience'', ''3+ years''), (''style'', ''Attacking'')]"
  by (simp_all add: collect_user_requirements_def collect_user_requirements_adk_def
      player_fields_def player_fields_adk_def py_input_def Let_def
      strip_def isspace_def lower_def lower_char_def char_of_eq_iff)

text \<open>
  The padded, upper-case line \<open>''  PLAYER ''\<close> is accepted by both collectors.
\<close>

theorem type_is_normalized_witness:
  "lower (strip ''  PLAYER '') = ''player'' \<and>
   fst (collect_user_requirements [''  PLAYER '', ''Forward'', ''20-25'', ''3+ years'', ''Attacking'']) =
     Inr [(''type'', ''player''), (''position'', ''Forward''), (''age_range'', ''20-25''),
          (''experience'', ''3+ years''), (''style'', ''Attacking'')] \<and>
   fst (collect_user_requirements_adk [''  PLAYER '', ''Forward'', ''20-25'', ''3+ years'', ''Attacking'']) =
     Inr [(''type'', ''player''), (''position'', ''Forward''), (''age_range'', ''20-25''),
          (''experience'', ''3+ years''), (''style'', ''Attacking'')] \<and>
   map_of [(''type'', ''player''), (''position'', ''Forward''), (''age_range'', ''20-25''),
          (''experience'', ''3+ years''), (''style'', ''Attacking'')] ''type'' = Some ''player''"
proof -
  have h: "lower (strip ''  PLAYER '') = ''player''"
    by (rule norm_padded)
  show ?thesis
    using h eval_padded_player
      type_is_normalized [of
        "[''  PLAYER '', ''Forward'', ''20-25'', ''3+ years'', ''Attacking'']"
        "[(''type'', ''player''), (''position'', ''Forward''), (''age_range'', ''20-25''),
          (''experience'', ''3+ years''), (''style'', ''Attacking'')]"
        "[''  PLAYER '', ''Forward'', ''20-25'', ''3+ years'', ''Attacking'']"
        "[(''type'', ''player''), (''position'', ''Forward''), (''age_range'', ''20-25''),
          (''experience'', ''3+ years''), (''style'', ''Attacking'')]"
        "''  PLAYER ''" "''Forward''" "''20-25''" "''3+ years''" "''Attacking''" "[]"]
    by simp
qed

lemma ask_choice_valid:
  assumes "lower (strip l) = ''player'' \<or> lower (strip l) = ''coach''"
  shows "ask_choice (l # ls) = (Inr (lower (strip l)), ls, [Input choice_prompt])"
    and "ask_choice_adk (l # ls) = (Inr (lower (strip l)), ls, [Input choice_prompt])"
  using assms by (auto simp: Let_def)

lemma ask_choice_only_valid:
  "fst (ask_choice ins) = Inr c \<Longrightarrow> c = ''player'' \<or> c = ''coach''"
  using ask_choice_Inr [of ins c "fst (snd (ask_choice ins))" "snd (snd (ask_choice ins))"]
  by (metis prod.collapse)

lemma ask_choice_adk_only_valid:
  "fst (ask_choice_adk ins) = Inr c \<Longrightarrow> c = ''player'' \<or> c = ''coach''"
  using ask_choice_adk_Inr [of ins c "fst (snd (ask_choice_adk ins))" "snd (snd (ask_choice_adk ins))"]
  by (metis prod.collapse)

lemma ask_choice_invalid:
  assumes "lower (strip l) \<noteq> ''player''" "lower (strip l) \<noteq> ''coach''" "lower (strip l) \<noteq> []"
  shows "ask_choice (l # ls) =
           (fst (ask_choice ls), fst (snd (ask_choice ls)),
            Input choice_prompt # Print invalid_choice # snd (snd (ask_choice ls)))"
  using assms by (simp add: Let_def split: prod.splits)

lemma ask_choice_adk_invalid:
  assumes "lower (strip l) \<noteq> ''player''" "lower (strip l) \<noteq> ''coach''"
  shows "ask_choice_adk (l # ls) =
           (fst (ask_choice_adk ls), fst (snd (ask_choice_adk ls)),
            Input choice_prompt # Print invalid_choice # snd (snd (ask_choice_adk ls)))"
  using assms by (simp add: Let_def split: prod.splits)

lemma ask_choice_empty:
  assumes "lower (strip l) = []"
  shows "ask_choice (l # ls) =
           (Inl (SystemExit 1), ls,
            [Input choice_prompt, Print ''Exiting due to empty input (EOF).''])"
  using assms by (simp add: Let_def)

lemma collect_aborts:
  assumes "fst (ask_choice ins) = Inl e"
  shows "fst (collect_user_requirements ins) = Inl e \<and>
         prompts (snd (snd (collect_user_requirements ins))) = prompts (snd (snd (ask_choice ins)))"
proof -
  obtain r ins' evs where ac: "ask_choice ins = (r, ins', evs)"
    by (metis prod_cases3)
  with assms have "r = Inl e" by simp
  with ac show ?thesis
    by (simp add: collect_user_requirements_def Let_def)
qed

lemma collect_adk_aborts:
  assumes "fst (ask_choice_adk ins) = Inl e"
  shows "fst (collect_user_requirements_adk ins) = Inl e \<and>
         prompts (snd (snd (collect_user_requirements_adk ins))) =
           prompts (snd (snd (ask_choice_adk ins)))"
proof -
  obtain r ins' evs where ac: "ask_choice_adk ins = (r, ins', evs)"
    by (metis prod_cases3)
  with assms have "r = Inl e" by simp
  with ac show ?thesis
    by (simp add: collect_user_requirements_adk_def Let_def)
qed

text \<open>
  Claim C3, as the code has it. The discriminant loop of both files becomes valid exactly
  when the stripped, lowercased line is \<open>player\<close> or \<open>coach\<close>; a line that is neither
  is answered with the invalid-choice message and the prompt again, which in
  football_system_adk.py includes the empty line. In football_system.py an empty (or blank)
  line ends the process with status 1. At end of input both files end the process with
  status 1 after the one prompt that met it. Whenever the loop ends the process, the
  collector ends with the same status and writes no prompt beyond those of the loop.
\<close>

theorem discriminant_prompt:
  "(lower (strip l) = ''player'' \<or> lower (strip l) = ''coach'' \<longrightarrow>
      ask_choice (l # ls) = (Inr (lower (strip l)), ls, [Input choice_prompt]) \<and>
      ask_choice_adk (l # ls) = (Inr (lower (strip l)), ls, [Input choice_prompt])) \<and>
   (fst (ask_choice ins) = Inr c \<longrightarrow> c = ''player'' \<or> c = ''coach'') \<and>
   (fst (ask_choice_adk ins') = Inr c' \<longrightarrow> c' = ''player'' \<or> c' = ''coach'') \<and>
   (lower (strip x) \<noteq> ''player'' \<and> lower (strip x) \<noteq> ''coach'' \<longrightarrow>
      ask_choice_adk (x # xs) =
        (fst (ask_choice_adk xs), fst (snd (ask_choice_adk xs)),
         Input choice_prompt # Print invalid_choice # snd (snd (ask_choice_adk xs))) \<and>
      (lower (strip x) \<noteq> [] \<longrightarrow>
         ask_choice (x # xs) =
           (fst (ask_choice xs), fst (snd (ask_choice xs)),
            Input choice_prompt # Print invalid_choice # snd (snd (ask_choice xs))))) \<and>
   (lower (strip z) = [] \<longrightarrow>
      ask_choice (z # zs) =
        (Inl (SystemExit 1), zs,
         [Input choice_prompt, Print ''Exiting due to empty input (EOF).''])) \<and>
   ask_choice [] =
     (Inl (SystemExit 1), [], [Input choice_prompt, Print ''Exiting due to empty input (EOF).'']) \<and>
   ask_choice_adk [] = (Inl (SystemExit 1), [], [Input choice_prompt]) \<and>
   (fst (ask_choice ys) = Inl e \<longrightarrow>
      fst (collect_user_requirements ys) = Inl e \<and>
      prompts (snd (snd (collect_user_requirements ys))) = prompts (snd (snd (ask_choice ys)))) \<and>
   (fst (ask_choice_adk ys') = Inl e' \<longrightarrow>
      fst (collect_user_requirements_adk ys') = Inl e' \<and>
      prompts (snd (snd (collect_user_requirements_adk ys'))) =
        prompts (snd (snd (ask_choice_adk ys'))))"
  using ask_choice_valid [of l ls] ask_choice_only_valid [of ins c]
    ask_choice_adk_only_valid [of ins' c'] ask_choice_adk_invalid [of x xs]
    ask_choice_invalid [of x xs] ask_choice_empty [of z zs]
    collect_aborts [of ys e] collect_adk_aborts [of ys' e']
  by (simp only: ask_choice.simps(1) ask_choice_adk.simps(1)) blast

lemma norm_samples:
  "lower (strip ''coach'') = ''coach''"
  "lower (strip ''manager'') = ''manager''"
  "lower (strip ''   '') = []"
  "lower (strip []) = []"
  by (simp_all add: strip_def isspace_def lower_def lower_char_def)

text \<open>
  The cases of the loop on concrete lines: a padded \<open>PLAYER\<close>, \<open>coach\<close>, the invalid
  \<open>manager\<close>, a blank line, and no line at all.
\<close>

theorem discriminant_prompt_witness:
  "lower (strip ''  PLAYER '') = ''player'' \<and>
   ask_choice [''  PLAYER '', ''Forward''] = (Inr ''player'', [''Forward''], [Input choice_prompt]) \<and>
   ask_choice_adk [''  PLAYER '', ''Forward''] = (Inr ''player'', [''Forward''], [Input choice_prompt]) \<and>
   fst (ask_choice [''coach'']) = Inr ''coach'' \<and>
   fst (ask_choice_adk [''coach'']) = Inr ''coach'' \<and>
   lower (strip ''manager'') \<noteq> ''player'' \<and> lower (strip ''manager'') \<noteq> ''coach'' \<and>
   lower (strip ''manager'') \<noteq> [] \<and>
   ask_choice_adk [''manager'', ''coach''] =
     (Inr ''coach'', [], [Input choice_prompt, Print invalid_choice, Input choice_prompt]) \<and>
   ask_choice [''manager'', ''coach''] =
     (Inr ''coach'', [], [Input choice_prompt, Print invalid_choice, Input choice_prompt]) \<and>
   lower (strip ''   '') = [] \<and>
   ask_choice [''   '', ''coach''] =
     (Inl (SystemExit 1), [''coach''],
      [Input choice_prompt, Print ''Exiting due to empty input (EOF).'']) \<and>
   fst (ask_choice []) = Inl (SystemExit 1) \<and>
   fst (collect_user_requirements []) = Inl (SystemExit 1) \<and>
   prompts (snd (snd (collect_user_requirements []))) = [choice_prompt] \<and>
   fst (ask_choice_adk []) = Inl (SystemExit 1) \<and>
   fst (collect_user_requirements_adk []) = Inl (SystemExit 1) \<and>
   prompts (snd (snd (collect_user_requirements_adk []))) = [choice_prompt]"
proof -
  have h: "lower (strip ''  PLAYER '') = ''player''"
    by (rule norm_padded)
  have ev: "ask_choice [''coach''] = (Inr ''coach'', [], [Input choice_prompt])"
    "ask_choice_adk [''coach''] = (Inr ''coach'', [], [Input choice_prompt])"
    by (simp_all add: norm_samples Let_def)
  show ?thesis
    using h ev norm_samples
      discriminant_prompt [of "''  PLAYER ''" "[''Forward'']" "[''coach'']" "''coach''"
        "[''coach'']" "''coach''" "''manager''" "[''coach'']" "''   ''" "[''coach'']"
        "[]" "SystemExit 1" "[]" "SystemExit 1"]
    by simp
qed

text \<open>
  In football_system_adk.py an empty discriminant does not end the process: the prompt is
  written again, and with the lines that follow the collector returns normally, six
  prompts in all.
\<close>

theorem empty_discriminant_adk_counterexample:
  "lower (strip []) = [] \<and>
   fst (collect_user_requirements_adk
          [[], ''player'', ''Forward'', ''20-25'', ''3+ years'', ''Attacking'']) =
     Inr [(''type'', ''player''), (''position'', ''Forward''), (''age_range'', ''20-25''),
          (''experience'', ''3+ years''), (''style'', ''Attacking'')] \<and>
   length (prompts (snd (snd (collect_user_requirements_adk
          [[], ''player'', ''Forward'', ''20-25'', ''3+ years'', ''Attacking''])))) = 6"
  by (simp add: collect_user_requirements_adk_def player_fields_adk_def py_input_def Let_def
      strip_def isspace_def lower_def lower_char_def)

section \<open>Facts about the retry loop\<close>

lemma attempts_list: "[0..<max_retries] = [0, 1, 2, 3, 4]"
  by (simp add: max_retries_def upt_rec)

lemma sleeps_append: "sleeps (xs @ ys) = sleeps xs @ sleeps ys"
  by (induction xs rule: sleeps.induct) simp_all

lemma attempts_made_append: "attempts_made (xs @ ys) = attempts_made xs + attempts_made ys"
  by (induction xs rule: attempts_made.induct) simp_all

lemma run_step_attempts_bound:
  "attempts_made (snd (snd (run_step_attempts be n sn p m t as))) \<le> length as"
proof (induction as arbitrary: n)
  case Nil
  show ?case by simp
next
  case (Cons a as)
  from Cons [of "Suc n"] show ?case
    by (auto simp: Let_def split: sum.splits prod.splits)
qed

lemma run_step_attempts_sleeps:
  "sleeps (snd (snd (run_step_attempts be n sn p m t as))) =
     map (\<lambda>i. base_delay * 2 ^ i)
       (take (length (sleeps (snd (snd (run_step_attempts be n sn p m t as))))) as)"
proof (induction as arbitrary: n)
  case Nil
  show ?case by simp
next
  case (Cons a as)
  from Cons [of "Suc n"] show ?case
    by (auto simp: Let_def split: sum.splits prod.splits)
qed

lemma run_step_attempts_sleeps_length:
  "length (sleeps (snd (snd (run_step_attempts be n sn p m t as)))) \<le> length as"
proof (induction as arbitrary: n)
  case Nil
  show ?case by simp
next
  case (Cons a as)
  from Cons [of "Suc n"] show ?case
    by (auto simp: Let_def split: sum.splits prod.splits)
qed

lemma run_step_attempts_exhausted:
  assumes "\<forall>i<length as. \<exists>e. be (n + i) m p (tools_config t) = Inl e \<and> rate_limited e"
  shows "run_step_attempts be n sn p m t as =
           ([], n + length as,
            concat (map (\<lambda>a. [GenerateContent m p (tools_config t),
                              Print (rate_limit_warning (base_delay * 2 ^ a) a),
                              Sleep (base_delay * 2 ^ a)]) as) @
            [Print (''Error: Failed '' @ sn @ '' after '' @ str_nat max_retries @
                    '' retries due to rate limits.'')])"
  using assms
proof (induction as arbitrary: n)
  case Nil
  show ?case by simp
next
  case (Cons a as)
  from Cons.prems obtain e where e: "be n m p (tools_config t) = Inl e" "rate_limited e"
    by fastforce
  have "\<forall>i<length as. \<exists>e. be (Suc n + i) m p (tools_config t) = Inl e \<and> rate_limited e"
  proof (intro allI impI)
    fix i assume "i < length as"
    then have "Suc i < length (a # as)" by simp
    with Cons.prems have "\<exists>e. be (n + Suc i) m p (tools_config t) = Inl e \<and> rate_limited e"
      by blast
    then show "\<exists>e. be (Suc n + i) m p (tools_config t) = Inl e \<and> rate_limited e" by simp
  qed
  from Cons.IH [OF this] e show ?case
    by (simp add: Let_def)
qed

lemma run_agent_safe_attempts_bound:
  "attempts_made (snd (snd (run_agent_safe_attempts be n ag p sn as))) \<le> length as"
proof (induction as arbitrary: n)
  case Nil
  show ?case by simp
next
  case (Cons a as)
  from Cons [of "Suc n"] show ?case
    by (auto simp: Let_def split: sum.splits prod.splits)
qed

lemma run_agent_safe_attempts_sleeps:
  "sleeps (snd (snd (run_agent_safe_attempts be n ag p sn as))) =
     map (\<lambda>i. base_delay * 2 ^ i)
       (take (length (sleeps (snd (snd (run_agent_safe_attempts be n ag p sn as))))) as)"
proof (induction as arbitrary: n)
  case Nil
  show ?case by simp
next
  case (Cons a as)
  from Cons [of "Suc n"] show ?case
    by (auto simp: Let_def split: sum.splits prod.splits)
qed

lemma run_agent_safe_attempts_sleeps_length:
  "length (sleeps (snd (snd (run_agent_safe_attempts be n ag p sn as)))) \<le> length as"
proof (induction as arbitrary: n)
  case Nil
  show ?case by simp
next
  case (Cons a as)
  from Cons [of "Suc n"] show ?case
    by (auto simp: Let_def split: sum.splits prod.splits)
qed

lemma run_agent_safe_attempts_exhausted:
  assumes "\<forall>i<length as. \<exists>e. be (n + i) ag p = Inl e \<and> rate_limited e"
  shows "run_agent_safe_attempts be n ag p sn as =
           ([], n + length as,
            concat (map (\<lambda>a. [RunnerRun ag p,
                              Print (rate_limit_warning (base_delay * 2 ^ a) a),
                              Sleep (base_delay * 2 ^ a)]) as) @
            [Print (''Error: Failed '' @ sn @ '' after '' @ str_nat max_retries @
                    '' retries.'')])"
  using assms
proof (induction as arbitrary: n)
  case Nil
  show ?case by simp
next
  case (Cons a as)
  from Cons.prems obtain e where e: "be n ag p = Inl e" "rate_limited e"
    by fastforce
  have "\<forall>i<length as. \<exists>e. be (Suc n + i) ag p = Inl e \<and> rate_limited e"
  proof (intro allI impI)
    fix i assume "i < length as"
    then have "Suc i < length (a # as)" by simp
    with Cons.prems have "\<exists>e. be (n + Suc i) ag p = Inl e \<and> rate_limited e"
      by blast
    then show "\<exists>e. be (Suc n + i) ag p = Inl e \<and> rate_limited e" by simp
  qed
  from Cons.IH [OF this]
  have rec: "run_agent_safe_attempts be (Suc n) ag p sn as =
           ([], Suc n + length as,
            concat (map (\<lambda>a. [RunnerRun ag p,
                              Print (rate_limit_warning (base_delay * 2 ^ a) a),
                              Sleep (base_delay * 2 ^ a)]) as) @
            [Print (''Error: Failed '' @ sn @ '' after '' @ str_nat max_retries @
                    '' retries.'')])" .
  show ?case
    unfolding run_agent_safe_attempts.simps e(1) sum.case Let_def rec prod.case
    using e(2) by simp
qed

lemma run_step_attempts_events: "snd (snd (run_step_attempts be n sn p m t as)) \<noteq> []"
  by (cases as) (simp_all add: Let_def split: sum.splits prod.splits)

lemma run_agent_safe_attempts_events:
  "snd (snd (run_agent_safe_attempts be n ag p sn as)) \<noteq> []"
  by (cases as) (simp_all add: Let_def split: sum.splits prod.splits)

lemma run_step_attempts_fatal:
  assumes "k < length as"
    and "\<forall>i<k. \<exists>e'. be (n + i) m p (tools_config t) = Inl e' \<and> rate_limited e'"
    and "be (n + k) m p (tools_config t) = Inl e" and "\<not> rate_limited e"
  shows "fst (run_step_attempts be n sn p m t as) = [] \<and>
         last (snd (snd (run_step_attempts be n sn p m t as))) =
           Print (''Error during '' @ sn @ '': '' @ e)"
  using assms
proof (induction as arbitrary: n k)
  case Nil
  then show ?case by simp
next
  case (Cons a as)
  show ?case
  proof (cases k)
    case 0
    with Cons.prems show ?thesis by (simp add: Let_def)
  next
    case (Suc j)
    with Cons.prems obtain e' where e': "be n m p (tools_config t) = Inl e'" "rate_limited e'"
      by fastforce
    have j: "j < length as" using Cons.prems(1) Suc by simp
    have tr: "\<forall>i<j. \<exists>e'. be (Suc n + i) m p (tools_config t) = Inl e' \<and> rate_limited e'"
    proof (intro allI impI)
      fix i assume "i < j"
      then have "Suc i < k" using Suc by simp
      with Cons.prems(2) have "\<exists>e'. be (n + Suc i) m p (tools_config t) = Inl e' \<and> rate_limited e'"
        by blast
      then show "\<exists>e'. be (Suc n + i) m p (tools_config t) = Inl e' \<and> rate_limited e'" by simp
    qed
    have f: "be (Suc n + j) m p (tools_config t) = Inl e" using Cons.prems(3) Suc by simp
    obtain r n' evs where rec: "run_step_attempts be (Suc n) sn p m t as = (r, n', evs)"
      by (metis prod_cases3)
    from Cons.IH [OF j tr f Cons.prems(4)] rec
    have r: "r = []" and l: "last evs = Print (''Error during '' @ sn @ '': '' @ e)"
      by simp_all
    from run_step_attempts_events [of be "Suc n" sn p m t as] rec have ne: "evs \<noteq> []"
      by simp
    have "run_step_attempts be n sn p m t (a # as) =
            (r, n', GenerateContent m p (tools_config t) #
                    Print (rate_limit_warning (base_delay * 2 ^ a) a) #
                    Sleep (base_delay * 2 ^ a) # evs)"
      using e' rec by (simp add: Let_def)
    with r l ne show ?thesis by simp
  qed
qed

lemma run_agent_safe_attempts_fatal:
  assumes "k < length as"
    and "\<forall>i<k. \<exists>e'. be (n + i) ag p = Inl e' \<and> rate_limited e'"
    and "be (n + k) ag p = Inl e" and "\<not> rate_limited e"
  shows "fst (run_agent_safe_attempts be n ag p sn as) = [] \<and>
         last (snd (snd (run_agent_safe_attempts be n ag p sn as))) =
           Print (if str_in ''404'' e \<and> str_in ''not found'' e
                  then ''Error: Model '' @ agent_model ag @
                       '' not found. Please check model availability.''
                  else ''Error during '' @ sn @ '': '' @ e)"
  using assms
proof (induction as arbitrary: n k)
  case Nil
  then show ?case by simp
next
  case (Cons a as)
  show ?case
  proof (cases k)
    case 0
    with Cons.prems show ?thesis by simp
  next
    case (Suc j)
    with Cons.prems obtain e' where e': "be n ag p = Inl e'" "rate_limited e'"
      by fastforce
    have j: "j < length as" using Cons.prems(1) Suc by simp
    have tr: "\<forall>i<j. \<exists>e'. be (Suc n + i) ag p = Inl e' \<and> rate_limited e'"
    proof (intro allI impI)
      fix i assume "i < j"
      then have "Suc i < k" using Suc by simp
      with Cons.prems(2) have "\<exists>e'. be (n + Suc i) ag p = Inl e' \<and> rate_limited e'"
        by blast
      then show "\<exists>e'. be (Suc n + i) ag p = Inl e' \<and> rate_limited e'" by simp
    qed
    have f: "be (Suc n + j) ag p = Inl e" using Cons.prems(3) Suc by simp
    obtain r n' evs where rec: "run_agent_safe_attempts be (Suc n) ag p sn as = (r, n', evs)"
      by (metis prod_cases3)
    from Cons.IH [OF j tr f Cons.prems(4)] rec
    have r: "r = []" and l: "last evs =
           Print (if str_in ''404'' e \<and> str_in ''not found'' e
                  then ''Error: Model '' @ agent_model ag @
                       '' not found. Please check model availability.''
                  else ''Error during '' @ sn @ '': '' @ e)"
      by simp_all
    from run_agent_safe_attempts_events [of be "Suc n" ag p sn as] rec have ne: "evs \<noteq> []"
      by simp
    have "run_agent_safe_attempts be n ag p sn (a # as) =
            (r, n', RunnerRun ag p #
                    Print (rate_limit_warning (base_delay * 2 ^ a) a) #
                    Sleep (base_delay * 2 ^ a) # evs)"
      using e' rec by (simp add: Let_def)
    with r l ne show ?thesis by simp
  qed
qed

lemma str_max_retries: "str_nat max_retries = ''5''"
  by (simp add: max_retries_def)

lemma delays: "map (\<lambda>i. base_delay * 2 ^ i) [0, 1, 2, 3, 4] = [10, 20, 40, 80, 160]"
  by (simp add: base_delay_def)

lemma take_upt_5: "k \<le> 5 \<Longrightarrow> take k [0, 1, 2, 3, 4::nat] = [0..<k]"
proof -
  assume "k \<le> 5"
  then have "k = 0 \<or> k = 1 \<or> k = 2 \<or> k = 3 \<or> k = 4 \<or> k = 5" by arith
  then show ?thesis by (auto simp: upt_rec)
qed

lemma run_step_sleeps:
  "sleeps (snd (snd (run_step be n sn p m t))) =
     map (\<lambda>i. 10 * 2 ^ i) [0..<length (sleeps (snd (snd (run_step be n sn p m t))))]"
proof -
  obtain r n' evs where rec: "run_step_attempts be n sn p m t [0, 1, 2, 3, 4] = (r, n', evs)"
    by (metis prod_cases3)
  from run_step_attempts_sleeps_length [of be n sn p m t "[0, 1, 2, 3, 4]"] rec
  have len: "length (sleeps evs) \<le> 5" by simp
  from run_step_attempts_sleeps [of be n sn p m t "[0, 1, 2, 3, 4]"] rec
  have "sleeps evs = map (\<lambda>i. base_delay * 2 ^ i) (take (length (sleeps evs)) [0, 1, 2, 3, 4])"
    by simp
  with take_upt_5 [OF len] have "sleeps evs = map (\<lambda>i. 10 * 2 ^ i) [0..<length (sleeps evs)]"
    by (simp add: base_delay_def)
  with rec show ?thesis
    by (simp add: run_step_def attempts_list)
qed

lemma run_agent_safe_sleeps:
  "sleeps (snd (snd (run_agent_safe be n ag p sn))) =
     map (\<lambda>i. 10 * 2 ^ i) [0..<length (sleeps (snd (snd (run_agent_safe be n ag p sn))))]"
proof -
  obtain r n' evs where rec: "run_agent_safe_attempts be n ag p sn [0, 1, 2, 3, 4] = (r, n', evs)"
    by (metis prod_cases3)
  from run_agent_safe_attempts_sleeps_length [of be n ag p sn "[0, 1, 2, 3, 4]"] rec
  have len: "length (sleeps evs) \<le> 5" by simp
  from run_agent_safe_attempts_sleeps [of be n ag p sn "[0, 1, 2, 3, 4]"] rec
  have "sleeps evs = map (\<lambda>i. base_delay * 2 ^ i) (take (length (sleeps evs)) [0, 1, 2, 3, 4])"
    by simp
  with take_upt_5 [OF len] have "sleeps evs = map (\<lambda>i. 10 * 2 ^ i) [0..<length (sleeps evs)]"
    by (simp add: base_delay_def)
  with rec show ?thesis
    by (simp add: run_agent_safe_def attempts_list)
qed

lemma run_step_bound: "attempts_made (snd (snd (run_step be n sn p m t))) \<le> 5"
proof -
  obtain r n' evs where rec: "run_step_attempts be n sn p m t [0, 1, 2, 3, 4] = (r, n', evs)"
    by (metis prod_cases3)
  from run_step_attempts_bound [of be n sn p m t "[0, 1, 2, 3, 4]"] rec
  show ?thesis by (simp add: run_step_def attempts_list)
qed

lemma run_agent_safe_bound: "attempts_made (snd (snd (run_agent_safe be n ag p sn))) \<le> 5"
proof -
  obtain r n' evs where rec: "run_agent_safe_attempts be n ag p sn [0, 1, 2, 3, 4] = (r, n', evs)"
    by (metis prod_cases3)
  from run_agent_safe_attempts_bound [of be n ag p sn "[0, 1, 2, 3, 4]"] rec
  show ?thesis by (simp add: run_agent_safe_def attempts_list)
qed

lemma run_step_exhausted:
  assumes "\<forall>i<5. \<exists>e. be (n + i) m p (tools_config t) = Inl e \<and> rate_limited e"
  shows "run_step be n sn p m t =
           ([], n + 5,
            Print (nl @ ''--- '' @ sn @ '' ---'') #
            concat (map (\<lambda>i. [GenerateContent m p (tools_config t),
                              Print (rate_limit_warning (10 * 2 ^ i) i),
                              Sleep (10 * 2 ^ i)]) [0, 1, 2, 3, 4]) @
            [Print (''Error: Failed '' @ sn @ '' after 5 retries due to rate limits.'')])"
proof -
  have "\<forall>i<length [0, 1, 2, 3, 4::nat]. \<exists>e. be (n + i) m p (tools_config t) = Inl e \<and> rate_limited e"
    using assms by simp
  note a = run_step_attempts_exhausted [of "[0, 1, 2, 3, 4]" be n m p t sn, OF this]
  show ?thesis
    unfolding run_step_def attempts_list a
    by (simp add: max_retries_def base_delay_def)
qed

lemma run_agent_safe_exhausted:
  assumes "\<forall>i<5. \<exists>e. be (n + i) ag p = Inl e \<and> rate_limited e"
  shows "run_agent_safe be n ag p sn =
           ([], n + 5,
            Print (nl @ ''--- '' @ sn @ '' ---'') #
            concat (map (\<lambda>i. [RunnerRun ag p,
                              Print (rate_limit_warning (10 * 2 ^ i) i),
                              Sleep (10 * 2 ^ i)]) [0, 1, 2, 3, 4]) @
            [Print (''Error: Failed '' @ sn @ '' after 5 retries.'')])"
proof -
  have "\<forall>i<length [0, 1, 2, 3, 4::nat]. \<exists>e. be (n + i) ag p = Inl e \<and> rate_limited e"
    using assms by simp
  note a = run_agent_safe_attempts_exhausted [of "[0, 1, 2, 3, 4]" be n ag p sn, OF this]
  show ?thesis
    unfolding run_agent_safe_def attempts_list a
    by (simp add: max_retries_def base_delay_def)
qed

lemma run_step_fatal:
  assumes "k < 5"
    and "\<forall>i<k. \<exists>e'. be (n + i) m p (tools_config t) = Inl e' \<and> rate_limited e'"
    and "be (n + k) m p (tools_config t) = Inl e" and "\<not> rate_limited e"
  shows "fst (run_step be n sn p m t) = [] \<and>
         last (snd (snd (run_step be n sn p m t))) = Print (''Error during '' @ sn @ '': '' @ e)"
proof -
  obtain r n' evs where rec: "run_step_attempts be n sn p m t [0, 1, 2, 3, 4] = (r, n', evs)"
    by (metis prod_cases3)
  have k: "k < length [0, 1, 2, 3, 4::nat]" using assms(1) by simp
  from run_step_attempts_fatal [where be=be and n=n and m=m and p=p and t=t and sn=sn and e=e, OF k assms(2) assms(3) assms(4)] rec
  have r: "r = []" and l: "last evs = Print (''Error during '' @ sn @ '': '' @ e)"
    by simp_all
  from run_step_attempts_events [of be n sn p m t "[0, 1, 2, 3, 4]"] rec have ne: "evs \<noteq> []"
    by simp
  show ?thesis
    unfolding run_step_def attempts_list rec using r l ne by simp
qed

lemma run_agent_safe_fatal:
  assumes "k < 5"
    and "\<forall>i<k. \<exists>e'. be (n + i) ag p = Inl e' \<and> rate_limited e'"
    and "be (n + k) ag p = Inl e" and "\<not> rate_limited e"
  shows "fst (run_agent_safe be n ag p sn) = [] \<and>
         last (snd (snd (run_agent_safe be n ag p sn))) =
           Print (if str_in ''404'' e \<and> str_in ''not found'' e
                  then ''Error: Model '' @ agent_model ag @
                       '' not found. Please check model availability.''
                  else ''Error during '' @ sn @ '': '' @ e)"
proof -
  obtain r n' evs where rec: "run_agent_safe_attempts be n ag p sn [0, 1, 2, 3, 4] = (r, n', evs)"
    by (metis prod_cases3)
  have k: "k < length [0, 1, 2, 3, 4::nat]" using assms(1) by simp
  from run_agent_safe_attempts_fatal [where be=be and n=n and ag=ag and p=p and sn=sn and e=e, OF k assms(2) assms(3) assms(4)] rec
  have r: "r = []" and l: "last evs =
           Print (if str_in ''404'' e \<and> str_in ''not found'' e
                  then ''Error: Model '' @ agent_model ag @
                       '' not found. Please check model availability.''
                  else ''Error during '' @ sn @ '': '' @ e)"
    by simp_all
  from run_agent_safe_attempts_events [of be n ag p sn "[0, 1, 2, 3, 4]"] rec have ne: "evs \<noteq> []"
    by simp
  show ?thesis
    unfolding run_agent_safe_def attempts_list rec using r l ne by simp
qed

lemma rate_limited_samples:
  "rate_limited ''429 RESOURCE_EXHAUSTED''" "\<not> rate_limited ''503 UNAVAILABLE''"
  by (simp_all add: rate_limited_def)

lemma retry_bounds:
  "attempts_made (snd (snd (run_step be n sn p m t))) \<le> 5 \<and>
   attempts_made (snd (snd (run_agent_safe bk n' ag p' sn'))) \<le> 5 \<and>
   sleeps (snd (snd (run_step be n sn p m t))) =
     map (\<lambda>i. 10 * 2 ^ i) [0..<length (sleeps (snd (snd (run_step be n sn p m t))))] \<and>
   sleeps (snd (snd (run_agent_safe bk n' ag p' sn'))) =
     map (\<lambda>i. 10 * 2 ^ i) [0..<length (sleeps (snd (snd (run_agent_safe bk n' ag p' sn'))))] \<and>
   ((\<forall>i<5. \<exists>e. be (n + i) m p (tools_config t) = Inl e \<and> rate_limited e) \<longrightarrow>
      run_step be n sn p m t =
        ([], n + 5,
         Print (nl @ ''--- '' @ sn @ '' ---'') #
         concat (map (\<lambda>i. [GenerateContent m p (tools_config t),
                           Print (rate_limit_warning (10 * 2 ^ i) i),
                           Sleep (10 * 2 ^ i)]) [0, 1, 2, 3, 4]) @
         [Print (''Error: Failed '' @ sn @ '' after 5 retries due to rate limits.'')]) \<and>
      sleeps (snd (snd (run_step be n sn p m t))) = [10, 20, 40, 80, 160] \<and>
      attempts_made (snd (snd (run_step be n sn p m t))) = 5) \<and>
   ((\<forall>i<5. \<exists>e. bk (n' + i) ag p' = Inl e \<and> rate_limited e) \<longrightarrow>
      run_agent_safe bk n' ag p' sn' =
        ([], n' + 5,
         Print (nl @ ''--- '' @ sn' @ '' ---'') #
         concat (map (\<lambda>i. [RunnerRun ag p',
                           Print (rate_limit_warning (10 * 2 ^ i) i),
                           Sleep (10 * 2 ^ i)]) [0, 1, 2, 3, 4]) @
         [Print (''Error: Failed '' @ sn' @ '' after 5 retries.'')]) \<and>
      sleeps (snd (snd (run_agent_safe bk n' ag p' sn'))) = [10, 20, 40, 80, 160] \<and>
      attempts_made (snd (snd (run_agent_safe bk n' ag p' sn'))) = 5)"
proof (intro conjI impI)
  show "attempts_made (snd (snd (run_step be n sn p m t))) \<le> 5"
    by (rule run_step_bound)
  show "attempts_made (snd (snd (run_agent_safe bk n' ag p' sn'))) \<le> 5"
    by (rule run_agent_safe_bound)
  show "sleeps (snd (snd (run_step be n sn p m t))) =
     map (\<lambda>i. 10 * 2 ^ i) [0..<length (sleeps (snd (snd (run_step be n sn p m t))))]"
    by (rule run_step_sleeps)
  show "sleeps (snd (snd (run_agent_safe bk n' ag p' sn'))) =
     map (\<lambda>i. 10 * 2 ^ i) [0..<length (sleeps (snd (snd (run_agent_safe bk n' ag p' sn'))))]"
    by (rule run_agent_safe_sleeps)
next
  assume a: "\<forall>i<5. \<exists>e. be (n + i) m p (tools_config t) = Inl e \<and> rate_limited e"
  note eq = run_step_exhausted [where be=be and n=n and m=m and p=p and t=t and sn=sn, OF a]
  show "run_step be n sn p m t =
        ([], n + 5,
         Print (nl @ ''--- '' @ sn @ '' ---'') #
         concat (map (\<lambda>i. [GenerateContent m p (tools_config t),
                           Print (rate_limit_warning (10 * 2 ^ i) i),
                           Sleep (10 * 2 ^ i)]) [0, 1, 2, 3, 4]) @
         [Print (''Error: Failed '' @ sn @ '' after 5 retries due to rate limits.'')])"
    by (rule eq)
  show "sleeps (snd (snd (run_step be n sn p m t))) = [10, 20, 40, 80, 160]"
    unfolding eq by simp
  show "attempts_made (snd (snd (run_step be n sn p m t))) = 5"
    unfolding eq by simp
next
  assume a: "\<forall>i<5. \<exists>e. bk (n' + i) ag p' = Inl e \<and> rate_limited e"
  note eq = run_agent_safe_exhausted [where be=bk and n=n' and ag=ag and p=p' and sn=sn', OF a]
  show "run_agent_safe bk n' ag p' sn' =
        ([], n' + 5,
         Print (nl @ ''--- '' @ sn' @ '' ---'') #
         concat (map (\<lambda>i. [RunnerRun ag p',
                           Print (rate_limit_warning (10 * 2 ^ i) i),
                           Sleep (10 * 2 ^ i)]) [0, 1, 2, 3, 4]) @
         [Print (''Error: Failed '' @ sn' @ '' after 5 retries.'')])"
    by (rule eq)
  show "sleeps (snd (snd (run_agent_safe bk n' ag p' sn'))) = [10, 20, 40, 80, 160]"
    unfolding eq by simp
  show "attempts_made (snd (snd (run_agent_safe bk n' ag p' sn'))) = 5"
    unfolding eq by simp
qed

lemma response_result_not_limited: "response_result r = Inl e \<Longrightarrow> \<not> rate_limited e"
proof -
  assume "response_result r = Inl e"
  then have "e = none_has_no_parts"
    by (auto simp: response_result_def first_candidate_text_def
        split: option.splits list.splits if_splits)
  then show ?thesis
    by (simp add: rate_limited_def none_has_no_parts_def)
qed


lemma sleeps_generate_rounds:
  "sleeps (concat (map (\<lambda>a. [GenerateContent m p c, Print (w a), Sleep (f a)]) as) @ rest) =
     map f as @ sleeps rest"
  by (induction as) simp_all

lemma sleeps_runner_rounds:
  "sleeps (concat (map (\<lambda>a. [RunnerRun ag p, Print (w a), Sleep (f a)]) as) @ rest) =
     map f as @ sleeps rest"
  by (induction as) simp_all

lemma attempts_generate_rounds:
  "attempts_made (concat (map (\<lambda>a. [GenerateContent m p c, Print (w a), Sleep (f a)]) as) @ rest) =
     length as + attempts_made rest"
  by (induction as) simp_all

lemma attempts_runner_rounds:
  "attempts_made (concat (map (\<lambda>a. [RunnerRun ag p, Print (w a), Sleep (f a)]) as) @ rest) =
     length as + attempts_made rest"
  by (induction as) simp_all

lemma run_step_attempts_retries:
  assumes "k < length as"
    and "\<forall>i<k. \<exists>e. be (n + i) m p (tools_config t) = Inl e \<and> rate_limited e"
    and "\<forall>e. be (n + k) m p (tools_config t) = Inl e \<longrightarrow> \<not> rate_limited e"
  shows "\<exists>fin. snd (snd (run_step_attempts be n sn p m t as)) =
           concat (map (\<lambda>a. [GenerateContent m p (tools_config t),
                             Print (rate_limit_warning (base_delay * 2 ^ a) a),
                             Sleep (base_delay * 2 ^ a)]) (take k as)) @
           GenerateContent m p (tools_config t) # fin \<and>
         sleeps fin = [] \<and> attempts_made fin = 0"
  using assms
proof (induction as arbitrary: n k)
  case Nil
  then show ?case by simp
next
  case (Cons a as)
  show ?case
  proof (cases k)
    case 0
    show ?thesis
    proof (cases "be n m p (tools_config t)")
      case (Inl e)
      with Cons.prems(3) 0 have "\<not> rate_limited e" by simp
      with Inl 0 show ?thesis by (simp add: Let_def)
    next
      case (Inr r)
      note b = this
      show ?thesis
      proof (cases "response_result r")
        case (Inl e)
        from response_result_not_limited [OF this] Inl b 0 show ?thesis
          by (simp add: Let_def)
      next
        case (Inr res)
        with b 0 show ?thesis by (simp add: Let_def)
      qed
    qed
  next
    case (Suc j)
    with Cons.prems obtain e where e: "be n m p (tools_config t) = Inl e" "rate_limited e"
      by fastforce
    have j: "j < length as" using Cons.prems(1) Suc by simp
    have tr: "\<forall>i<j. \<exists>e. be (Suc n + i) m p (tools_config t) = Inl e \<and> rate_limited e"
    proof (intro allI impI)
      fix i assume "i < j"
      then have "Suc i < k" using Suc by simp
      with Cons.prems(2) have "\<exists>e. be (n + Suc i) m p (tools_config t) = Inl e \<and> rate_limited e"
        by blast
      then show "\<exists>e. be (Suc n + i) m p (tools_config t) = Inl e \<and> rate_limited e" by simp
    qed
    have f: "\<forall>e. be (Suc n + j) m p (tools_config t) = Inl e \<longrightarrow> \<not> rate_limited e"
      using Cons.prems(3) Suc by simp
    obtain r n' evs where rec: "run_step_attempts be (Suc n) sn p m t as = (r, n', evs)"
      by (metis prod_cases3)
    from Cons.IH [OF j tr f] rec obtain fin where
      fin: "evs = concat (map (\<lambda>a. [GenerateContent m p (tools_config t),
                             Print (rate_limit_warning (base_delay * 2 ^ a) a),
                             Sleep (base_delay * 2 ^ a)]) (take j as)) @
           GenerateContent m p (tools_config t) # fin" "sleeps fin = []" "attempts_made fin = 0"
      by auto
    have "run_step_attempts be n sn p m t (a # as) =
            (r, n', GenerateContent m p (tools_config t) #
                    Print (rate_limit_warning (base_delay * 2 ^ a) a) #
                    Sleep (base_delay * 2 ^ a) # evs)"
      using e rec by (simp add: Let_def)
    with fin Suc show ?thesis by simp
  qed
qed

lemma run_agent_safe_attempts_retries:
  assumes "k < length as"
    and "\<forall>i<k. \<exists>e. be (n + i) ag p = Inl e \<and> rate_limited e"
    and "\<forall>e. be (n + k) ag p = Inl e \<longrightarrow> \<not> rate_limited e"
  shows "\<exists>fin. snd (snd (run_agent_safe_attempts be n ag p sn as)) =
           concat (map (\<lambda>a. [RunnerRun ag p,
                             Print (rate_limit_warning (base_delay * 2 ^ a) a),
                             Sleep (base_delay * 2 ^ a)]) (take k as)) @
           RunnerRun ag p # fin \<and>
         sleeps fin = [] \<and> attempts_made fin = 0"
  using assms
proof (induction as arbitrary: n k)
  case Nil
  then show ?case by simp
next
  case (Cons a as)
  show ?case
  proof (cases k)
    case 0
    show ?thesis
    proof (cases "be n ag p")
      case (Inl e)
      with Cons.prems(3) 0 have "\<not> rate_limited e" by simp
      with Inl 0 show ?thesis by simp
    next
      case (Inr events)
      with 0 show ?thesis by (simp add: Let_def)
    qed
  next
    case (Suc j)
    with Cons.prems obtain e where e: "be n ag p = Inl e" "rate_limited e"
      by fastforce
    have j: "j < length as" using Cons.prems(1) Suc by simp
    have tr: "\<forall>i<j. \<exists>e. be (Suc n + i) ag p = Inl e \<and> rate_limited e"
    proof (intro allI impI)
      fix i assume "i < j"
      then have "Suc i < k" using Suc by simp
      with Cons.prems(2) have "\<exists>e. be (n + Suc i) ag p = Inl e \<and> rate_limited e"
        by blast
      then show "\<exists>e. be (Suc n + i) ag p = Inl e \<and> rate_limited e" by simp
    qed
    have f: "\<forall>e. be (Suc n + j) ag p = Inl e \<longrightarrow> \<not> rate_limited e"
      using Cons.prems(3) Suc by simp
    obtain r n' evs where rec: "run_agent_safe_attempts be (Suc n) ag p sn as = (r, n', evs)"
      by (metis prod_cases3)
    from Cons.IH [OF j tr f] rec obtain fin where
      fin: "evs = concat (map (\<lambda>a. [RunnerRun ag p,
                             Print (rate_limit_warning (base_delay * 2 ^ a) a),
                             Sleep (base_delay * 2 ^ a)]) (take j as)) @
           RunnerRun ag p # fin" "sleeps fin = []" "attempts_made fin = 0"
      by auto
    have "run_agent_safe_attempts be n ag p sn (a # as) =
            (r, n', RunnerRun ag p #
                    Print (rate_limit_warning (base_delay * 2 ^ a) a) #
                    Sleep (base_delay * 2 ^ a) # evs)"
      using e rec by (simp add: Let_def)
    with fin Suc show ?thesis by simp
  qed
qed

lemma run_step_retries:
  assumes "k < 5"
    and "\<forall>i<k. \<exists>e. be (n + i) m p (tools_config t) = Inl e \<and> rate_limited e"
    and "\<forall>e. be (n + k) m p (tools_config t) = Inl e \<longrightarrow> \<not> rate_limited e"
  shows "\<exists>fin. snd (snd (run_step be n sn p m t)) =
           Print (nl @ ''--- '' @ sn @ '' ---'') #
           concat (map (\<lambda>i. [GenerateContent m p (tools_config t),
                             Print (rate_limit_warning (10 * 2 ^ i) i),
                             Sleep (10 * 2 ^ i)]) [0..<k]) @
           GenerateContent m p (tools_config t) # fin \<and>
         sleeps fin = [] \<and> attempts_made fin = 0"
proof -
  obtain r n' evs where rec: "run_step_attempts be n sn p m t [0, 1, 2, 3, 4] = (r, n', evs)"
    by (metis prod_cases3)
  have k: "k < length [0, 1, 2, 3, 4::nat]" using assms(1) by simp
  have k5: "k \<le> 5" using assms(1) by simp
  from run_step_attempts_retries [where be=be and n=n and m=m and p=p and t=t and sn=sn,
      OF k assms(2) assms(3)] rec
  obtain fin where "evs =
           concat (map (\<lambda>a. [GenerateContent m p (tools_config t),
                             Print (rate_limit_warning (base_delay * 2 ^ a) a),
                             Sleep (base_delay * 2 ^ a)]) (take k [0, 1, 2, 3, 4])) @
           GenerateContent m p (tools_config t) # fin" "sleeps fin = []" "attempts_made fin = 0"
    by auto
  then show ?thesis
    unfolding run_step_def attempts_list rec take_upt_5 [OF k5]
    by (simp add: base_delay_def)
qed

lemma run_agent_safe_retries:
  assumes "k < 5"
    and "\<forall>i<k. \<exists>e. be (n + i) ag p = Inl e \<and> rate_limited e"
    and "\<forall>e. be (n + k) ag p = Inl e \<longrightarrow> \<not> rate_limited e"
  shows "\<exists>fin. snd (snd (run_agent_safe be n ag p sn)) =
           Print (nl @ ''--- '' @ sn @ '' ---'') #
           concat (map (\<lambda>i. [RunnerRun ag p,
                             Print (rate_limit_warning (10 * 2 ^ i) i),
                             Sleep (10 * 2 ^ i)]) [0..<k]) @
           RunnerRun ag p # fin \<and>
         sleeps fin = [] \<and> attempts_made fin = 0"
proof -
  obtain r n' evs where rec: "run_agent_safe_attempts be n ag p sn [0, 1, 2, 3, 4] = (r, n', evs)"
    by (metis prod_cases3)
  have k: "k < length [0, 1, 2, 3, 4::nat]" using assms(1) by simp
  have k5: "k \<le> 5" using assms(1) by simp
  from run_agent_safe_attempts_retries [where be=be and n=n and ag=ag and p=p and sn=sn,
      OF k assms(2) assms(3)] rec
  obtain fin where "evs =
           concat (map (\<lambda>a. [RunnerRun ag p,
                             Print (rate_limit_warning (base_delay * 2 ^ a) a),
                             Sleep (base_delay * 2 ^ a)]) (take k [0, 1, 2, 3, 4])) @
           RunnerRun ag p # fin" "sleeps fin = []" "attempts_made fin = 0"
    by auto
  then show ?thesis
    unfolding run_agent_safe_def attempts_list rec take_upt_5 [OF k5]
    by (simp add: base_delay_def)
qed

text \<open>
  Claim C1. A stage invocation (\<open>run_step\<close>, \<open>run_agent_safe\<close>) sends at most 5 requests.
  When its first \<open>k\<close> attempts are rate-limited and the next one, attempt \<open>k < 5\<close>, is not
  (it returns text or fails with another error), the events are, for \<open>i\<close> from 0 to
  \<open>k - 1\<close> in order, the request, the warning and a sleep of \<open>10 * 2 ^ i\<close> seconds, then
  the request of attempt \<open>k\<close> and nothing more that sleeps or asks: the stage has waited
  \<open>10 * 2 ^ i\<close> seconds after each rate-limited attempt \<open>i\<close>, before the retry, and has
  made \<open>k + 1\<close> requests. When all five attempts are rate-limited the events are the five
  rounds of request, warning and sleep, with sleeps of 10, 20, 40, 80 and 160 seconds, and
  then the failure message; the stage returns the empty text. In every case the sleeps
  are the first terms of the sequence \<open>10 * 2 ^ i\<close>.
\<close>

theorem retry_schedule:
  "(k < 5 \<and> (\<forall>i<k. \<exists>e. bf (a + i) m p (tools_config t) = Inl e \<and> rate_limited e) \<and>
    (\<forall>e. bf (a + k) m p (tools_config t) = Inl e \<longrightarrow> \<not> rate_limited e) \<longrightarrow>
      (\<exists>fin. snd (snd (run_step bf a sn p m t)) =
          Print (nl @ ''--- '' @ sn @ '' ---'') #
          concat (map (\<lambda>i. [GenerateContent m p (tools_config t),
                            Print (rate_limit_warning (10 * 2 ^ i) i),
                            Sleep (10 * 2 ^ i)]) [0..<k]) @
          GenerateContent m p (tools_config t) # fin \<and>
          sleeps fin = [] \<and> attempts_made fin = 0) \<and>
      sleeps (snd (snd (run_step bf a sn p m t))) = map (\<lambda>i. 10 * 2 ^ i) [0..<k] \<and>
      attempts_made (snd (snd (run_step bf a sn p m t))) = Suc k) \<and>
   (j < 5 \<and> (\<forall>i<j. \<exists>e. bj (a' + i) ag p' = Inl e \<and> rate_limited e) \<and>
    (\<forall>e. bj (a' + j) ag p' = Inl e \<longrightarrow> \<not> rate_limited e) \<longrightarrow>
      (\<exists>fin. snd (snd (run_agent_safe bj a' ag p' sn')) =
          Print (nl @ ''--- '' @ sn' @ '' ---'') #
          concat (map (\<lambda>i. [RunnerRun ag p',
                            Print (rate_limit_warning (10 * 2 ^ i) i),
                            Sleep (10 * 2 ^ i)]) [0..<j]) @
          RunnerRun ag p' # fin \<and>
          sleeps fin = [] \<and> attempts_made fin = 0) \<and>
      sleeps (snd (snd (run_agent_safe bj a' ag p' sn'))) = map (\<lambda>i. 10 * 2 ^ i) [0..<j] \<and>
      attempts_made (snd (snd (run_agent_safe bj a' ag p' sn'))) = Suc j) \<and>
   attempts_made (snd (snd (run_step be n sn p m t))) \<le> 5 \<and>
   attempts_made (snd (snd (run_agent_safe bk n' ag p' sn'))) \<le> 5 \<and>
   sleeps (snd (snd (run_step be n sn p m t))) =
     map (\<lambda>i. 10 * 2 ^ i) [0..<length (sleeps (snd (snd (run_step be n sn p m t))))] \<and>
   sleeps (snd (snd (run_agent_safe bk n' ag p' sn'))) =
     map (\<lambda>i. 10 * 2 ^ i) [0..<length (sleeps (snd (snd (run_agent_safe bk n' ag p' sn'))))] \<and>
   ((\<forall>i<5. \<exists>e. be (n + i) m p (tools_config t) = Inl e \<and> rate_limited e) \<longrightarrow>
      run_step be n sn p m t =
        ([], n + 5,
         Print (nl @ ''--- '' @ sn @ '' ---'') #
         concat (map (\<lambda>i. [GenerateContent m p (tools_config t),
                           Print (rate_limit_warning (10 * 2 ^ i) i),
                           Sleep (10 * 2 ^ i)]) [0, 1, 2, 3, 4]) @
         [Print (''Error: Failed '' @ sn @ '' after 5 retries due to rate limits.'')]) \<and>
      sleeps (snd (snd (run_step be n sn p m t))) = [10, 20, 40, 80, 160] \<and>
      attempts_made (snd (snd (run_step be n sn p m t))) = 5) \<and>
   ((\<forall>i<5. \<exists>e. bk (n' + i) ag p' = Inl e \<and> rate_limited e) \<longrightarrow>
      run_agent_safe bk n' ag p' sn' =
        ([], n' + 5,
         Print (nl @ ''--- '' @ sn' @ '' ---'') #
         concat (map (\<lambda>i. [RunnerRun ag p',
                           Print (rate_limit_warning (10 * 2 ^ i) i),
                           Sleep (10 * 2 ^ i)]) [0, 1, 2, 3, 4]) @
         [Print (''Error: Failed '' @ sn' @ '' after 5 retries.'')]) \<and>
      sleeps (snd (snd (run_agent_safe bk n' ag p' sn'))) = [10, 20, 40, 80, 160] \<and>
      attempts_made (snd (snd (run_agent_safe bk n' ag p' sn'))) = 5)"
proof (rule conjI [OF _ conjI [OF _ retry_bounds]]; intro impI)
  assume h: "k < 5 \<and> (\<forall>i<k. \<exists>e. bf (a + i) m p (tools_config t) = Inl e \<and> rate_limited e) \<and>
    (\<forall>e. bf (a + k) m p (tools_config t) = Inl e \<longrightarrow> \<not> rate_limited e)"
  then have h1: "k < 5"
    and h2: "\<forall>i<k. \<exists>e. bf (a + i) m p (tools_config t) = Inl e \<and> rate_limited e"
    and h3: "\<forall>e. bf (a + k) m p (tools_config t) = Inl e \<longrightarrow> \<not> rate_limited e"
    by blast+
  from run_step_retries [where be=bf and n=a and m=m and p=p and t=t and sn=sn, OF h1 h2 h3]
  obtain fin where
    ev: "snd (snd (run_step bf a sn p m t)) =
          Print (nl @ ''--- '' @ sn @ '' ---'') #
          concat (map (\<lambda>i. [GenerateContent m p (tools_config t),
                            Print (rate_limit_warning (10 * 2 ^ i) i),
                            Sleep (10 * 2 ^ i)]) [0..<k]) @
          GenerateContent m p (tools_config t) # fin"
    and fin: "sleeps fin = []" "attempts_made fin = 0" by blast
  have s: "sleeps (snd (snd (run_step bf a sn p m t))) = map (\<lambda>i. 10 * 2 ^ i) [0..<k]"
    unfolding ev using fin by (simp add: sleeps_generate_rounds)
  have c: "attempts_made (snd (snd (run_step bf a sn p m t))) = Suc k"
    unfolding ev using fin by (simp add: attempts_generate_rounds)
  from ev fin s c show "(\<exists>fin. snd (snd (run_step bf a sn p m t)) =
          Print (nl @ ''--- '' @ sn @ '' ---'') #
          concat (map (\<lambda>i. [GenerateContent m p (tools_config t),
                            Print (rate_limit_warning (10 * 2 ^ i) i),
                            Sleep (10 * 2 ^ i)]) [0..<k]) @
          GenerateContent m p (tools_config t) # fin \<and>
          sleeps fin = [] \<and> attempts_made fin = 0) \<and>
      sleeps (snd (snd (run_step bf a sn p m t))) = map (\<lambda>i. 10 * 2 ^ i) [0..<k] \<and>
      attempts_made (snd (snd (run_step bf a sn p m t))) = Suc k"
    by blast
next
  assume h: "j < 5 \<and> (\<forall>i<j. \<exists>e. bj (a' + i) ag p' = Inl e \<and> rate_limited e) \<and>
    (\<forall>e. bj (a' + j) ag p' = Inl e \<longrightarrow> \<not> rate_limited e)"
  then have h1: "j < 5"
    and h2: "\<forall>i<j. \<exists>e. bj (a' + i) ag p' = Inl e \<and> rate_limited e"
    and h3: "\<forall>e. bj (a' + j) ag p' = Inl e \<longrightarrow> \<not> rate_limited e"
    by blast+
  from run_agent_safe_retries [where be=bj and n=a' and ag=ag and p=p' and sn=sn', OF h1 h2 h3]
  obtain fin where
    ev: "snd (snd (run_agent_safe bj a' ag p' sn')) =
          Print (nl @ ''--- '' @ sn' @ '' ---'') #
          concat (map (\<lambda>i. [RunnerRun ag p',
                            Print (rate_limit_warning (10 * 2 ^ i) i),
                            Sleep (10 * 2 ^ i)]) [0..<j]) @
          RunnerRun ag p' # fin"
    and fin: "sleeps fin = []" "attempts_made fin = 0" by blast
  have s: "sleeps (snd (snd (run_agent_safe bj a' ag p' sn'))) = map (\<lambda>i. 10 * 2 ^ i) [0..<j]"
    unfolding ev using fin by (simp add: sleeps_runner_rounds)
  have c: "attempts_made (snd (snd (run_agent_safe bj a' ag p' sn'))) = Suc j"
    unfolding ev using fin by (simp add: attempts_runner_rounds)
  from ev fin s c show "(\<exists>fin. snd (snd (run_agent_safe bj a' ag p' sn')) =
          Print (nl @ ''--- '' @ sn' @ '' ---'') #
          concat (map (\<lambda>i. [RunnerRun ag p',
                            Print (rate_limit_warning (10 * 2 ^ i) i),
                            Sleep (10 * 2 ^ i)]) [0..<j]) @
          RunnerRun ag p' # fin \<and>
          sleeps fin = [] \<and> attempts_made fin = 0) \<and>
      sleeps (snd (snd (run_agent_safe bj a' ag p' sn'))) = map (\<lambda>i. 10 * 2 ^ i) [0..<j] \<and>
      attempts_made (snd (snd (run_agent_safe bj a' ag p' sn'))) = Suc j"
    by blast
qed

text \<open>
  A stage that is rate-limited once and then answers, one that is rate-limited once and
  then fails, and both stages against a backend that always answers with a rate-limit
  error.
\<close>

theorem retry_schedule_witness:
  "rate_limited ''429 RESOURCE_EXHAUSTED'' \<and>
   sleeps (snd (snd (run_step (limited_once ''Lionel Messi'') 0 ''Step 2: Retrieving Data''
          ''prompt'' default_model_name (Some [GoogleSearch])))) = [10] \<and>
   attempts_made (snd (snd (run_step (limited_once ''Lionel Messi'') 0
          ''Step 2: Retrieving Data'' ''prompt'' default_model_name (Some [GoogleSearch])))) = 2 \<and>
   sleeps (snd (snd (run_agent_safe limited_then_unavailable_adk 0 data_agent ''prompt''
          ''Retrieving Data''))) = [10] \<and>
   attempts_made (snd (snd (run_agent_safe limited_then_unavailable_adk 0 data_agent ''prompt''
          ''Retrieving Data''))) = 2 \<and>
   fst (run_step always_rate_limited 0 ''Step 2: Retrieving Data'' ''prompt''
          default_model_name (Some [GoogleSearch])) = [] \<and>
   sleeps (snd (snd (run_step always_rate_limited 0 ''Step 2: Retrieving Data'' ''prompt''
          default_model_name (Some [GoogleSearch])))) = [10, 20, 40, 80, 160] \<and>
   attempts_made (snd (snd (run_step always_rate_limited 0 ''Step 2: Retrieving Data''
          ''prompt'' default_model_name (Some [GoogleSearch])))) = 5 \<and>
   fst (run_agent_safe always_rate_limited_adk 0 data_agent ''prompt'' ''Retrieving Data'') = [] \<and>
   sleeps (snd (snd (run_agent_safe always_rate_limited_adk 0 data_agent ''prompt''
          ''Retrieving Data''))) = [10, 20, 40, 80, 160] \<and>
   attempts_made (snd (snd (run_agent_safe always_rate_limited_adk 0 data_agent ''prompt''
          ''Retrieving Data''))) = 5"
proof -
  have k: "(1::nat) < 5" by simp
  have l1: "\<forall>i<1. \<exists>e. limited_once ''Lionel Messi'' (0 + i) default_model_name ''prompt''
             (tools_config (Some [GoogleSearch])) = Inl e \<and> rate_limited e"
    by (simp add: limited_once_def rate_limited_samples)
  have l2: "\<forall>e. limited_once ''Lionel Messi'' (0 + 1) default_model_name ''prompt''
             (tools_config (Some [GoogleSearch])) = Inl e \<longrightarrow> \<not> rate_limited e"
    by (simp add: limited_once_def)
  have u1: "\<forall>i<1. \<exists>e. limited_then_unavailable_adk (0 + i) data_agent ''prompt'' = Inl e \<and>
             rate_limited e"
    by (simp add: limited_then_unavailable_adk_def rate_limited_samples)
  have u2: "\<forall>e. limited_then_unavailable_adk (0 + 1) data_agent ''prompt'' = Inl e \<longrightarrow>
             \<not> rate_limited e"
    by (simp add: limited_then_unavailable_adk_def rate_limited_samples)
  have g: "\<forall>i<5. \<exists>e. always_rate_limited (0 + i) default_model_name ''prompt''
             (tools_config (Some [GoogleSearch])) = Inl e \<and> rate_limited e"
    by (simp add: always_rate_limited_def rate_limited_samples)
  have a: "\<forall>i<5. \<exists>e. always_rate_limited_adk (0 + i) data_agent ''prompt'' = Inl e \<and>
             rate_limited e"
    by (simp add: always_rate_limited_adk_def rate_limited_samples)
  note inst = retry_schedule [of 1 "limited_once ''Lionel Messi''" 0 default_model_name
        "''prompt''" "Some [GoogleSearch]" "''Step 2: Retrieving Data''"
        1 limited_then_unavailable_adk 0 data_agent "''prompt''" "''Retrieving Data''"
        always_rate_limited 0 always_rate_limited_adk 0]
  from inst k l1 l2 have s1:
    "sleeps (snd (snd (run_step (limited_once ''Lionel Messi'') 0 ''Step 2: Retrieving Data''
          ''prompt'' default_model_name (Some [GoogleSearch])))) = map (\<lambda>i. 10 * 2 ^ i) [0..<1]"
    "attempts_made (snd (snd (run_step (limited_once ''Lionel Messi'') 0
          ''Step 2: Retrieving Data'' ''prompt'' default_model_name (Some [GoogleSearch])))) = Suc 1"
    by blast+
  from inst k u1 u2 have s2:
    "sleeps (snd (snd (run_agent_safe limited_then_unavailable_adk 0 data_agent ''prompt''
          ''Retrieving Data''))) = map (\<lambda>i. 10 * 2 ^ i) [0..<1]"
    "attempts_made (snd (snd (run_agent_safe limited_then_unavailable_adk 0 data_agent ''prompt''
          ''Retrieving Data''))) = Suc 1"
    by blast+
  from inst g have s3:
    "run_step always_rate_limited 0 ''Step 2: Retrieving Data'' ''prompt''
          default_model_name (Some [GoogleSearch]) =
        ([], 0 + 5,
         Print (nl @ ''--- '' @ ''Step 2: Retrieving Data'' @ '' ---'') #
         concat (map (\<lambda>i. [GenerateContent default_model_name ''prompt''
                             (tools_config (Some [GoogleSearch])),
                           Print (rate_limit_warning (10 * 2 ^ i) i),
                           Sleep (10 * 2 ^ i)]) [0, 1, 2, 3, 4]) @
         [Print (''Error: Failed '' @ ''Step 2: Retrieving Data'' @
                 '' after 5 retries due to rate limits.'')])"
    by blast
  from inst a have s4:
    "run_agent_safe always_rate_limited_adk 0 data_agent ''prompt'' ''Retrieving Data'' =
        ([], 0 + 5,
         Print (nl @ ''--- '' @ ''Retrieving Data'' @ '' ---'') #
         concat (map (\<lambda>i. [RunnerRun data_agent ''prompt'',
                           Print (rate_limit_warning (10 * 2 ^ i) i),
                           Sleep (10 * 2 ^ i)]) [0, 1, 2, 3, 4]) @
         [Print (''Error: Failed '' @ ''Retrieving Data'' @ '' after 5 retries.'')])"
    by blast
  show ?thesis
    unfolding s1 s2 s3 s4 by (simp add: rate_limited_samples)
qed

text \<open>
  Claim C6. When an attempt of a stage ends in an error that is not a rate-limit error
  (after any number of rate-limited attempts before it), or when all five attempts are
  rate-limited, the stage returns the empty text and the last thing it prints is the
  error line. The stage functions are total and their result carries no exit: the
  process goes on with the caller.
\<close>

theorem stage_failure_returns_empty:
  "(k < 5 \<and> (\<forall>i<k. \<exists>e'. be (n + i) m p (tools_config t) = Inl e' \<and> rate_limited e') \<and>
    be (n + k) m p (tools_config t) = Inl e \<and> \<not> rate_limited e \<longrightarrow>
      fst (run_step be n sn p m t) = [] \<and>
      last (snd (snd (run_step be n sn p m t))) = Print (''Error during '' @ sn @ '': '' @ e)) \<and>
   ((\<forall>i<5. \<exists>e'. be' (n + i) m p (tools_config t) = Inl e' \<and> rate_limited e') \<longrightarrow>
      fst (run_step be' n sn p m t) = [] \<and>
      last (snd (snd (run_step be' n sn p m t))) =
        Print (''Error: Failed '' @ sn @ '' after 5 retries due to rate limits.'')) \<and>
   (j < 5 \<and> (\<forall>i<j. \<exists>e'. bk (n' + i) ag p' = Inl e' \<and> rate_limited e') \<and>
    bk (n' + j) ag p' = Inl x \<and> \<not> rate_limited x \<longrightarrow>
      fst (run_agent_safe bk n' ag p' sn') = [] \<and>
      last (snd (snd (run_agent_safe bk n' ag p' sn'))) =
        Print (if str_in ''404'' x \<and> str_in ''not found'' x
               then ''Error: Model '' @ agent_model ag @
                    '' not found. Please check model availability.''
               else ''Error during '' @ sn' @ '': '' @ x)) \<and>
   ((\<forall>i<5. \<exists>e'. bk' (n' + i) ag p' = Inl e' \<and> rate_limited e') \<longrightarrow>
      fst (run_agent_safe bk' n' ag p' sn') = [] \<and>
      last (snd (snd (run_agent_safe bk' n' ag p' sn'))) =
        Print (''Error: Failed '' @ sn' @ '' after 5 retries.''))"
proof (intro conjI impI)
  assume a: "k < 5 \<and> (\<forall>i<k. \<exists>e'. be (n + i) m p (tools_config t) = Inl e' \<and> rate_limited e') \<and>
    be (n + k) m p (tools_config t) = Inl e \<and> \<not> rate_limited e"
  then have a1: "k < 5"
    and a2: "\<forall>i<k. \<exists>e'. be (n + i) m p (tools_config t) = Inl e' \<and> rate_limited e'"
    and a3: "be (n + k) m p (tools_config t) = Inl e" and a4: "\<not> rate_limited e"
    by blast+
  note f = run_step_fatal [where be=be and n=n and m=m and p=p and t=t and sn=sn and e=e,
      OF a1 a2 a3 a4]
  from f show "fst (run_step be n sn p m t) = []" by blast
  from f show "last (snd (snd (run_step be n sn p m t))) =
      Print (''Error during '' @ sn @ '': '' @ e)" by blast
next
  assume a: "\<forall>i<5. \<exists>e'. be' (n + i) m p (tools_config t) = Inl e' \<and> rate_limited e'"
  note eq = run_step_exhausted [where be=be' and n=n and m=m and p=p and t=t and sn=sn, OF a]
  show "fst (run_step be' n sn p m t) = []" unfolding eq by simp
  show "last (snd (snd (run_step be' n sn p m t))) =
        Print (''Error: Failed '' @ sn @ '' after 5 retries due to rate limits.'')"
    unfolding eq by simp
next
  assume a: "j < 5 \<and> (\<forall>i<j. \<exists>e'. bk (n' + i) ag p' = Inl e' \<and> rate_limited e') \<and>
    bk (n' + j) ag p' = Inl x \<and> \<not> rate_limited x"
  then have a1: "j < 5"
    and a2: "\<forall>i<j. \<exists>e'. bk (n' + i) ag p' = Inl e' \<and> rate_limited e'"
    and a3: "bk (n' + j) ag p' = Inl x" and a4: "\<not> rate_limited x"
    by blast+
  note f = run_agent_safe_fatal [where be=bk and n=n' and ag=ag and p=p' and sn=sn' and e=x,
      OF a1 a2 a3 a4]
  from f show "fst (run_agent_safe bk n' ag p' sn') = []" by blast
  from f show "last (snd (snd (run_agent_safe bk n' ag p' sn'))) =
        Print (if str_in ''404'' x \<and> str_in ''not found'' x
               then ''Error: Model '' @ agent_model ag @
                    '' not found. Please check model availability.''
               else ''Error during '' @ sn' @ '': '' @ x)" by blast
next
  assume a: "\<forall>i<5. \<exists>e'. bk' (n' + i) ag p' = Inl e' \<and> rate_limited e'"
  note eq = run_agent_safe_exhausted [where be=bk' and n=n' and ag=ag and p=p' and sn=sn', OF a]
  show "fst (run_agent_safe bk' n' ag p' sn') = []" unfolding eq by simp
  show "last (snd (snd (run_agent_safe bk' n' ag p' sn'))) =
        Print (''Error: Failed '' @ sn' @ '' after 5 retries.'')"
    unfolding eq by simp
qed

lemma not_404: "\<not> str_in ''404'' ''503 UNAVAILABLE''"
  by simp

text \<open>
  One rate-limit error followed by a server error, and five rate-limit errors, in both
  files.
\<close>

theorem stage_failure_returns_empty_witness:
  "rate_limited ''429 RESOURCE_EXHAUSTED'' \<and> \<not> rate_limited ''503 UNAVAILABLE'' \<and>
   fst (run_step limited_then_unavailable 0 ''Step 3: Scoring Candidates'' ''prompt''
          default_model_name None) = [] \<and>
   last (snd (snd (run_step limited_then_unavailable 0 ''Step 3: Scoring Candidates''
          ''prompt'' default_model_name None))) =
     Print ''Error during Step 3: Scoring Candidates: 503 UNAVAILABLE'' \<and>
   fst (run_step always_rate_limited 0 ''Step 3: Scoring Candidates'' ''prompt''
          default_model_name None) = [] \<and>
   last (snd (snd (run_step always_rate_limited 0 ''Step 3: Scoring Candidates''
          ''prompt'' default_model_name None))) =
     Print ''Error: Failed Step 3: Scoring Candidates after 5 retries due to rate limits.'' \<and>
   fst (run_agent_safe limited_then_unavailable_adk 0 scoring_agent ''prompt''
          ''Scoring Candidates'') = [] \<and>
   last (snd (snd (run_agent_safe limited_then_unavailable_adk 0 scoring_agent ''prompt''
          ''Scoring Candidates''))) =
     Print ''Error during Scoring Candidates: 503 UNAVAILABLE'' \<and>
   fst (run_agent_safe always_rate_limited_adk 0 scoring_agent ''prompt''
          ''Scoring Candidates'') = [] \<and>
   last (snd (snd (run_agent_safe always_rate_limited_adk 0 scoring_agent ''prompt''
          ''Scoring Candidates''))) =
     Print ''Error: Failed Scoring Candidates after 5 retries.''"
proof -
  have k: "(1::nat) < 5" by simp
  have g1: "\<forall>i<1. \<exists>e'. limited_then_unavailable (0 + i) default_model_name ''prompt''
              (tools_config None) = Inl e' \<and> rate_limited e'"
    by (simp add: limited_then_unavailable_def rate_limited_samples)
  have g2: "limited_then_unavailable (0 + 1) default_model_name ''prompt'' (tools_config None) =
              Inl ''503 UNAVAILABLE''"
    by (simp add: limited_then_unavailable_def)
  have g3: "\<forall>i<5. \<exists>e'. always_rate_limited (0 + i) default_model_name ''prompt''
              (tools_config None) = Inl e' \<and> rate_limited e'"
    by (simp add: always_rate_limited_def rate_limited_samples)
  have a1: "\<forall>i<1. \<exists>e'. limited_then_unavailable_adk (0 + i) scoring_agent ''prompt'' = Inl e' \<and>
              rate_limited e'"
    by (simp add: limited_then_unavailable_adk_def rate_limited_samples)
  have a2: "limited_then_unavailable_adk (0 + 1) scoring_agent ''prompt'' = Inl ''503 UNAVAILABLE''"
    by (simp add: limited_then_unavailable_adk_def)
  have a3: "\<forall>i<5. \<exists>e'. always_rate_limited_adk (0 + i) scoring_agent ''prompt'' = Inl e' \<and>
              rate_limited e'"
    by (simp add: always_rate_limited_adk_def rate_limited_samples)
  show ?thesis
    using k g1 g2 g3 a1 a2 a3 rate_limited_samples not_404
      stage_failure_returns_empty [of 1 limited_then_unavailable 0 default_model_name
        "''prompt''" None "''503 UNAVAILABLE''" "''Step 3: Scoring Candidates''"
        always_rate_limited 1 limited_then_unavailable_adk 0 scoring_agent "''prompt''"
        "''503 UNAVAILABLE''" "''Scoring Candidates''" always_rate_limited_adk]
    by simp
qed

lemma parts_text_join:
  "concat (map (\<lambda>p. case part_text p of None \<Rightarrow> [] | Some s \<Rightarrow> s)
             (filter (\<lambda>p. text_truthy (part_text p)) ps)) = parts_text ps"
  by (induction ps rule: parts_text.induct) (simp_all add: text_truthy_def)

lemma full_response_text: "concat (full_response events) = events_text events"
  by (induction events rule: events_text.induct)
    (simp_all add: full_response_def event_texts_def parts_text_join)

text \<open>
  Claim C8. When the first attempt of a stage is rate-limited and the second succeeds with
  the (non-empty) text \<open>T\<close>, the stage returns exactly \<open>T\<close>. For \<open>run_step\<close> the text
  of the response is its \<^verbatim>\<open>.text\<close>; for \<open>run_agent_safe\<close> it is \<open>events_text\<close> of the
  events, the texts of all their parts in order.
\<close>

theorem retry_transparency:
  "(be n m p (tools_config t) = Inl e \<and> rate_limited e \<and>
    be (Suc n) m p (tools_config t) = Inr resp \<and> resp_text resp = Some T \<and> T \<noteq> [] \<longrightarrow>
      fst (run_step be n sn p m t) = T) \<and>
   (bk n' ag p' = Inl e' \<and> rate_limited e' \<and>
    bk (Suc n') ag p' = Inr events \<and> events_text events = T' \<and> T' \<noteq> [] \<longrightarrow>
      fst (run_agent_safe bk n' ag p' sn') = T')"
  by (simp add: run_step_def run_agent_safe_def attempts_list Let_def response_result_def
      full_response_text)

text \<open>
  A backend that is rate-limited once and then answers \<open>Lionel Messi\<close>, for the runner
  in three events: two parts, one of them without text, an event without content, and one
  more part.
\<close>

theorem retry_transparency_witness:
  "rate_limited ''429 RESOURCE_EXHAUSTED'' \<and>
   events_text two_events = ''Lionel Messi'' \<and>
   fst (run_step (limited_once ''Lionel Messi'') 0 ''Step 2: Retrieving Data'' ''prompt''
          default_model_name (Some [GoogleSearch])) = ''Lionel Messi'' \<and>
   fst (run_agent_safe (limited_once_events two_events) 0 data_agent ''prompt''
          ''Retrieving Data'') = ''Lionel Messi''"
proof -
  have g: "limited_once ''Lionel Messi'' 0 default_model_name ''prompt''
             (tools_config (Some [GoogleSearch])) = Inl ''429 RESOURCE_EXHAUSTED''"
    "limited_once ''Lionel Messi'' (Suc 0) default_model_name ''prompt''
             (tools_config (Some [GoogleSearch])) = Inr (Response (Some ''Lionel Messi'') None)"
    by (simp_all add: limited_once_def)
  have a: "limited_once_events two_events 0 data_agent ''prompt'' = Inl ''429 RESOURCE_EXHAUSTED''"
    "limited_once_events two_events (Suc 0) data_agent ''prompt'' = Inr two_events"
    by (simp_all add: limited_once_events_def)
  have t: "events_text two_events = ''Lionel Messi''"
    by (simp add: two_events_def)
  show ?thesis
    using g a t rate_limited_samples
      retry_transparency [of "limited_once ''Lionel Messi''" 0 default_model_name "''prompt''"
        "Some [GoogleSearch]" "''429 RESOURCE_EXHAUSTED''" "Response (Some ''Lionel Messi'') None"
        "''Lionel Messi''" "''Step 2: Retrieving Data''" "limited_once_events two_events" 0
        data_agent "''prompt''" "''429 RESOURCE_EXHAUSTED''" two_events "''Lionel Messi''"
        "''Retrieving Data''"]
    by simp
qed

text \<open>
  Claim C7 asks for the sentinel text whenever a response carries no text. In
  football_system.py a response without \<^verbatim>\<open>.text\<close> whose first candidate has parts, none
  of them with text, makes \<^verbatim>\<open>run_step\<close> return the join of no texts, the empty text,
  which is the value the stage returns on failure; \<^verbatim>\<open>run_agent_safe\<close> of
  football_system_adk.py returns its sentinel on the same kind of response.
\<close>

theorem textless_parts_return_empty:
  "response_result textless_response = Inr [] \<and>
   fst (run_step textless_backend 0 ''Step 2: Retrieving Data'' ''prompt'' default_model_name
          (Some [GoogleSearch])) = [] \<and>
   no_text_response = ''No text response generated.'' \<and>
   fst (run_agent_safe textless_backend_adk 0 data_agent ''prompt'' ''Retrieving Data'') =
     ''No response generated.''"
  by (simp add: run_step_def run_agent_safe_def attempts_list Let_def response_result_def
      first_candidate_text_def join_part_texts_def text_truthy_def textless_response_def
      textless_backend_def textless_backend_adk_def no_text_response_def full_response_def
      event_texts_def)

section \<open>Facts about the pipeline\<close>

lemma run_step_first_request:
  "\<exists>r. snd (snd (run_step be n sn p m t)) =
         Print (nl @ ''--- '' @ sn @ '' ---'') # GenerateContent m p (tools_config t) # r"
proof -
  obtain x where x: "(case be n m p (tools_config t) of Inl e \<Rightarrow> Inl e
                      | Inr response \<Rightarrow> response_result response) = x" by simp
  obtain r n' evs where rec: "run_step_attempts be (Suc n) sn p m t [1, 2, 3, 4] = (r, n', evs)"
    by (metis prod_cases3)
  show ?thesis
    unfolding run_step_def attempts_list
    using x rec by (cases x) (simp_all add: Let_def)
qed

lemma agents_run_append: "agents_run (xs @ ys) = agents_run xs @ agents_run ys"
  by (induction xs rule: agents_run.induct) simp_all

lemma ask_choice_adk_no_run: "agents_run (snd (snd (ask_choice_adk ins))) = []"
  by (induction ins) (auto simp: Let_def split: prod.splits)

lemma ask_fields_no_run: "agents_run (snd (snd (ask_fields kps d ins))) = []"
proof (induction kps arbitrary: d ins)
  case Nil
  show ?case by simp
next
  case (Cons kp kps)
  obtain key prompt where kp: "kp = (key, prompt)" by (cases kp)
  show ?case
  proof (cases ins)
    case Nil
    then show ?thesis by (simp add: kp py_input_def)
  next
    case (Cons l ls)
    obtain r ins' evs where rec: "ask_fields kps (dict_set d key (strip l)) ls = (r, ins', evs)"
      by (metis prod_cases3)
    from Cons.IH [of "dict_set d key (strip l)" ls] rec have "agents_run evs = []" by simp
    with Cons rec show ?thesis by (simp add: kp py_input_def)
  qed
qed

lemma collect_adk_no_run: "agents_run (snd (snd (collect_user_requirements_adk ins))) = []"
proof -
  obtain r ins' evs where ac: "ask_choice_adk ins = (r, ins', evs)"
    by (metis prod_cases3)
  from ask_choice_adk_no_run [of ins] ac have e: "agents_run evs = []" by simp
  show ?thesis
  proof (cases r)
    case (Inl x)
    with ac e show ?thesis
      by (simp add: collect_user_requirements_adk_def Let_def)
  next
    case (Inr c)
    obtain r' ins'' evs' where af:
      "ask_fields (if c = ''player'' then player_fields_adk else coach_fields_adk)
         [(''type'', c)] ins' = (r', ins'', evs')"
      by (metis prod_cases3)
    from ask_fields_no_run [of "if c = ''player'' then player_fields_adk else coach_fields_adk"
        "[(''type'', c)]" ins'] af
    have e': "agents_run evs' = []" by simp
    from ac Inr af e e' show ?thesis
      by (cases r') (simp_all add: collect_user_requirements_adk_def Let_def agents_run_append)
  qed
qed

lemma print_lines_no_run: "agents_run (map (\<lambda>(key, val). Print (f key val)) reqs) = []"
  by (induction reqs) auto

lemma print_structured_no_run: "agents_run (print_structured_requirements reqs) = []"
  by (simp add: print_structured_requirements_def agents_run_append print_lines_no_run)

lemma run_agent_safe_attempts_agents:
  "set (agents_run (snd (snd (run_agent_safe_attempts be n ag p sn as)))) \<subseteq> {ag}"
proof (induction as arbitrary: n)
  case Nil
  show ?case by simp
next
  case (Cons a as)
  obtain r n' evs where rec: "run_agent_safe_attempts be (Suc n) ag p sn as = (r, n', evs)"
    by (metis prod_cases3)
  from Cons [of "Suc n"] rec have "set (agents_run evs) \<subseteq> {ag}" by simp
  with rec show ?case
    by (cases "be n ag p") (simp_all add: Let_def)
qed

lemma run_agent_safe_agents:
  "set (agents_run (snd (snd (run_agent_safe be n ag p sn)))) \<subseteq> {ag}"
proof -
  obtain r n' evs where rec: "run_agent_safe_attempts be n ag p sn [0, 1, 2, 3, 4] = (r, n', evs)"
    by (metis prod_cases3)
  from run_agent_safe_attempts_agents [of be n ag p sn "[0, 1, 2, 3, 4]"] rec
  show ?thesis by (simp add: run_agent_safe_def attempts_list)
qed

lemma run_agent_safe_attempts_empty_logged:
  "fst (run_agent_safe_attempts be n ag p sn as) = [] \<Longrightarrow>
   \<exists>msg. last (snd (snd (run_agent_safe_attempts be n ag p sn as))) = Print (''Error'' @ msg)"
proof (induction as arbitrary: n)
  case Nil
  show ?case by simp
next
  case (Cons a as)
  obtain r n' evs where rec: "run_agent_safe_attempts be (Suc n) ag p sn as = (r, n', evs)"
    by (metis prod_cases3)
  from run_agent_safe_attempts_events [of be "Suc n" ag p sn as] rec have ne: "evs \<noteq> []"
    by simp
  show ?case
  proof (cases "be n ag p")
    case (Inr events)
    with Cons.prems show ?thesis by (simp add: Let_def split: if_splits)
  next
    case (Inl e)
    show ?thesis
    proof (cases "rate_limited e")
      case True
      with Inl rec Cons.prems have "r = []" by (simp add: Let_def)
      with Cons.IH [of "Suc n"] rec obtain msg where "last evs = Print (''Error'' @ msg)"
        by auto
      with Inl True rec ne show ?thesis by (simp add: Let_def)
    next
      case False
      with Inl show ?thesis by simp
    qed
  qed
qed

lemma run_agent_safe_empty_logged:
  assumes "fst (run_agent_safe be n ag p sn) = []"
  shows "\<exists>msg. last (snd (snd (run_agent_safe be n ag p sn))) = Print (''Error'' @ msg)"
proof -
  obtain r n' evs where rec: "run_agent_safe_attempts be n ag p sn [0, 1, 2, 3, 4] = (r, n', evs)"
    by (metis prod_cases3)
  from assms rec have "fst (run_agent_safe_attempts be n ag p sn [0, 1, 2, 3, 4]) = []"
    by (simp add: run_agent_safe_def attempts_list)
  from run_agent_safe_attempts_empty_logged [OF this] rec
  obtain msg where l: "last evs = Print (''Error'' @ msg)" by auto
  from run_agent_safe_attempts_events [of be n ag p sn "[0, 1, 2, 3, 4]"] rec have ne: "evs \<noteq> []"
    by simp
  show ?thesis
    unfolding run_agent_safe_def attempts_list rec using l ne by simp
qed

lemma collect_sample:
  "fst (collect_user_requirements sample_lines) = Inr sample_requirements"
  "fst (collect_user_requirements_adk sample_lines) = Inr sample_requirements"
  unfolding sample_lines_def sample_requirements_def by (rule eval_padded_player)+

lemma main_collected:
  assumes "fst (collect_user_requirements ins) = Inr reqs"
  shows "main repr be ins =
           (case retrieve be (initial_locals reqs
                   (snd (snd (collect_user_requirements ins)) @
                    [Print (nl @ ''Collected Requirements: '' @ str_dict repr reqs)])) of
              Inl x \<Rightarrow> Inl x
            | Inr s \<Rightarrow> Inr (rank be (score repr be s)))"
proof -
  obtain r ins' evs where c: "collect_user_requirements ins = (r, ins', evs)"
    by (metis prod_cases3)
  with assms have "r = Inr reqs" by simp
  with c show ?thesis by (simp add: main_def)
qed

lemma main_adk_collected:
  assumes "fst (collect_user_requirements_adk ins) = Inr reqs"
  shows "main_adk repr be ins =
           (case retrieve_adk be (initial_locals reqs
                   (snd (snd (collect_user_requirements_adk ins)) @
                    print_structured_requirements reqs)) of
              Inl x \<Rightarrow> Inl x
            | Inr s1 \<Rightarrow>
                if data_output s1 = [] then Inr s1
                else if scored_output (score_adk repr be s1) = [] then Inr (score_adk repr be s1)
                else Inr (rank_adk be (score_adk repr be s1)))"
proof -
  obtain r ins' evs where c: "collect_user_requirements_adk ins = (r, ins', evs)"
    by (metis prod_cases3)
  with assms have "r = Inr reqs" by simp
  with c show ?thesis by (simp add: main_adk_def Let_def split: sum.splits)
qed

lemma main_Inr_collected:
  assumes "main repr be ins = Inr sf"
  shows "\<exists>reqs. fst (collect_user_requirements ins) = Inr reqs"
proof -
  obtain r ins' evs where c: "collect_user_requirements ins = (r, ins', evs)"
    by (metis prod_cases3)
  with assms show ?thesis by (cases r) (simp_all add: main_def)
qed

lemma main_adk_Inr_collected:
  assumes "main_adk repr be ins = Inr sf"
  shows "\<exists>reqs. fst (collect_user_requirements_adk ins) = Inr reqs"
proof -
  obtain r ins' evs where c: "collect_user_requirements_adk ins = (r, ins', evs)"
    by (metis prod_cases3)
  with assms show ?thesis by (cases r) (simp_all add: main_adk_def)
qed

lemma retrieve_Inr:
  assumes "retrieve be s = Inr s'"
  shows "\<exists>prompt. search_prompt (user_reqs s) = Inr prompt \<and>
           user_reqs s' = user_reqs s \<and>
           data_output s' = fst (run_step be (requests s) ''Step 2: Retrieving Data'' prompt
                                  default_model_name (Some [GoogleSearch])) \<and>
           (data_output s' = [] \<longrightarrow> last (trace s') = Print search_warning)"
proof (cases "search_prompt (user_reqs s)")
  case (Inl e)
  with assms show ?thesis by (simp add: retrieve_def)
next
  case (Inr prompt)
  obtain r n evs where rs: "run_step be (requests s) ''Step 2: Retrieving Data'' prompt
                              default_model_name (Some [GoogleSearch]) = (r, n, evs)"
    by (metis prod_cases3)
  from assms Inr rs show ?thesis by (auto simp: retrieve_def)
qed

lemma retrieve_adk_Inr:
  assumes "retrieve_adk be s = Inr s'"
  shows "\<exists>prompt. search_prompt_adk (user_reqs s) = Inr prompt \<and>
           s' = s\<lparr>data_output := fst (run_agent_safe be (requests s) data_agent prompt
                                        ''Retrieving Data''),
                  requests := fst (snd (run_agent_safe be (requests s) data_agent prompt
                                         ''Retrieving Data'')),
                  trace := trace s @ snd (snd (run_agent_safe be (requests s) data_agent prompt
                                         ''Retrieving Data''))\<rparr>"
proof (cases "search_prompt_adk (user_reqs s)")
  case (Inl e)
  with assms show ?thesis by (simp add: retrieve_adk_def)
next
  case (Inr prompt)
  obtain r n evs where rs: "run_agent_safe be (requests s) data_agent prompt
                              ''Retrieving Data'' = (r, n, evs)"
    by (metis prod_cases3)
  from assms Inr rs show ?thesis by (auto simp: retrieve_adk_def)
qed

lemma score_fields:
  "user_reqs (score repr be s) = user_reqs s"
  "data_output (score repr be s) = data_output s"
  "set (trace s) \<subseteq> set (trace (score repr be s))"
  "GenerateContent default_model_name (scoring_prompt repr (user_reqs s) (data_output s)) None
     \<in> set (trace (score repr be s))"
proof -
  obtain r n evs where rs: "run_step be (requests s) ''Step 3: Scoring Candidates''
       (scoring_prompt repr (user_reqs s) (data_output s)) default_model_name None = (r, n, evs)"
    by (metis prod_cases3)
  from run_step_first_request [of be "requests s" "''Step 3: Scoring Candidates''"
      "scoring_prompt repr (user_reqs s) (data_output s)" default_model_name None] rs
  have m: "GenerateContent default_model_name
             (scoring_prompt repr (user_reqs s) (data_output s)) None \<in> set evs"
    by (auto simp: tools_config_def)
  from rs show "user_reqs (score repr be s) = user_reqs s" by (simp add: score_def)
  from rs show "data_output (score repr be s) = data_output s" by (simp add: score_def)
  from rs show "set (trace s) \<subseteq> set (trace (score repr be s))" by (auto simp: score_def)
  from rs m show "GenerateContent default_model_name
       (scoring_prompt repr (user_reqs s) (data_output s)) None \<in> set (trace (score repr be s))"
    by (simp add: score_def)
qed

lemma rank_fields:
  "user_reqs (rank be s) = user_reqs s"
  "data_output (rank be s) = data_output s"
  "set (trace s) \<subseteq> set (trace (rank be s))"
  "GenerateContent default_model_name (ranking_prompt (scored_output s)) None
     \<in> set (trace (rank be s))"
proof -
  obtain r n evs where rs: "run_step be (requests s) ''Step 4: Final Recommendations''
       (ranking_prompt (scored_output s)) default_model_name None = (r, n, evs)"
    by (metis prod_cases3)
  from run_step_first_request [of be "requests s" "''Step 4: Final Recommendations''"
      "ranking_prompt (scored_output s)" default_model_name None] rs
  have m: "GenerateContent default_model_name (ranking_prompt (scored_output s)) None \<in> set evs"
    by (auto simp: tools_config_def)
  from rs show "user_reqs (rank be s) = user_reqs s" by (simp add: rank_def)
  from rs show "data_output (rank be s) = data_output s" by (simp add: rank_def)
  from rs show "set (trace s) \<subseteq> set (trace (rank be s))" by (auto simp: rank_def)
  from rs m show "GenerateContent default_model_name (ranking_prompt (scored_output s)) None
       \<in> set (trace (rank be s))"
    by (simp add: rank_def)
qed

lemma score_adk_user_reqs: "user_reqs (score_adk repr be s) = user_reqs s"
  by (simp add: score_adk_def split: prod.splits)

lemma rank_adk_user_reqs: "user_reqs (rank_adk be s) = user_reqs s"
  by (simp add: rank_adk_def split: prod.splits)

lemma run_agent_safe_events: "snd (snd (run_agent_safe be n ag p sn)) \<noteq> []"
  by (simp add: run_agent_safe_def split: prod.splits)

lemma user_reqs_initial: "user_reqs (initial_locals reqs evs) = reqs"
  "trace (initial_locals reqs evs) = evs" "requests (initial_locals reqs evs) = 0"
  by (simp_all add: initial_locals_def)

text \<open>
  Claim C2, as the code has it. In football_system_adk.py, when Stage 1 returns the
  empty text, \<^verbatim>\<open>main\<close> returns at once with the locals as Stage 1 left them: the only
  agent ever run is the data agent, and the last line printed is the error line of the
  failed stage. In football_system.py, when Stage 1 returns the empty text, \<^verbatim>\<open>main\<close>
  prints the search warning and goes on: Stage 2 sends its request, with empty candidate
  data in the prompt, and Stage 3 sends its request after it.
\<close>

theorem empty_retrieval:
  "(fst (collect_user_requirements_adk ins) = Inr reqs \<and>
    retrieve_adk bk (initial_locals reqs
        (snd (snd (collect_user_requirements_adk ins)) @ print_structured_requirements reqs)) =
      Inr s1 \<and>
    data_output s1 = [] \<longrightarrow>
      main_adk repr bk ins = Inr s1 \<and>
      set (agents_run (trace s1)) \<subseteq> {data_agent} \<and>
      (\<exists>msg. last (trace s1) = Print (''Error'' @ msg))) \<and>
   (fst (collect_user_requirements ins') = Inr reqs' \<and>
    retrieve be (initial_locals reqs'
        (snd (snd (collect_user_requirements ins')) @
         [Print (nl @ ''Collected Requirements: '' @ str_dict repr' reqs')])) = Inr s1' \<and>
    data_output s1' = [] \<longrightarrow>
      last (trace s1') = Print search_warning \<and>
      main repr' be ins' = Inr (rank be (score repr' be s1')) \<and>
      GenerateContent default_model_name (scoring_prompt repr' reqs' []) None
        \<in> set (trace (score repr' be s1')) \<and>
      GenerateContent default_model_name
          (ranking_prompt (scored_output (score repr' be s1'))) None
        \<in> set (trace (rank be (score repr' be s1'))))"
proof (intro conjI impI)
  assume a: "fst (collect_user_requirements_adk ins) = Inr reqs \<and>
    retrieve_adk bk (initial_locals reqs
        (snd (snd (collect_user_requirements_adk ins)) @ print_structured_requirements reqs)) =
      Inr s1 \<and>
    data_output s1 = []"
  then have A: "fst (collect_user_requirements_adk ins) = Inr reqs"
    and B: "retrieve_adk bk (initial_locals reqs
        (snd (snd (collect_user_requirements_adk ins)) @ print_structured_requirements reqs)) =
      Inr s1"
    and C: "data_output s1 = []" by blast+
  from main_adk_collected [OF A, of repr bk] B C show "main_adk repr bk ins = Inr s1"
    by simp
  from retrieve_adk_Inr [OF B] obtain prompt where
    s1: "s1 = (initial_locals reqs
        (snd (snd (collect_user_requirements_adk ins)) @ print_structured_requirements reqs))
        \<lparr>data_output := fst (run_agent_safe bk 0 data_agent prompt ''Retrieving Data''),
         requests := fst (snd (run_agent_safe bk 0 data_agent prompt ''Retrieving Data'')),
         trace := (snd (snd (collect_user_requirements_adk ins)) @
                   print_structured_requirements reqs) @
                  snd (snd (run_agent_safe bk 0 data_agent prompt ''Retrieving Data''))\<rparr>"
    by (auto simp: user_reqs_initial)
  from s1 have t: "trace s1 = (snd (snd (collect_user_requirements_adk ins)) @
                   print_structured_requirements reqs) @
                  snd (snd (run_agent_safe bk 0 data_agent prompt ''Retrieving Data''))"
    by simp
  from s1 C have d: "fst (run_agent_safe bk 0 data_agent prompt ''Retrieving Data'') = []"
    by simp
  show "set (agents_run (trace s1)) \<subseteq> {data_agent}"
    unfolding t
    using run_agent_safe_agents [of bk 0 data_agent prompt "''Retrieving Data''"]
    by (simp add: agents_run_append collect_adk_no_run print_structured_no_run)
  from run_agent_safe_empty_logged [OF d] obtain msg where
    "last (snd (snd (run_agent_safe bk 0 data_agent prompt ''Retrieving Data''))) =
       Print (''Error'' @ msg)" by blast
  then have "last (trace s1) = Print (''Error'' @ msg)"
    unfolding t
    using run_agent_safe_events [of bk 0 data_agent prompt "''Retrieving Data''"]
    by simp
  then show "\<exists>msg. last (trace s1) = Print (''Error'' @ msg)" by blast
next
  assume a: "fst (collect_user_requirements ins') = Inr reqs' \<and>
    retrieve be (initial_locals reqs'
        (snd (snd (collect_user_requirements ins')) @
         [Print (nl @ ''Collected Requirements: '' @ str_dict repr' reqs')])) = Inr s1' \<and>
    data_output s1' = []"
  then have A: "fst (collect_user_requirements ins') = Inr reqs'"
    and B: "retrieve be (initial_locals reqs'
        (snd (snd (collect_user_requirements ins')) @
         [Print (nl @ ''Collected Requirements: '' @ str_dict repr' reqs')])) = Inr s1'"
    and C: "data_output s1' = []" by blast+
  from retrieve_Inr [OF B] C have u: "user_reqs s1' = reqs'"
    and l: "last (trace s1') = Print search_warning"
    by (auto simp: user_reqs_initial)
  from l show "last (trace s1') = Print search_warning" .
  from main_collected [OF A, of repr' be] B
  show "main repr' be ins' = Inr (rank be (score repr' be s1'))" by simp
  from score_fields(4) [of repr' s1' be] u C
  show "GenerateContent default_model_name (scoring_prompt repr' reqs' []) None
        \<in> set (trace (score repr' be s1'))" by simp
  show "GenerateContent default_model_name
          (ranking_prompt (scored_output (score repr' be s1'))) None
        \<in> set (trace (rank be (score repr' be s1')))"
    by (rule rank_fields(4))
qed

lemma run_step_unavailable:
  "run_step always_unavailable n sn p m t =
     ([], Suc n,
      [Print (nl @ ''--- '' @ sn @ '' ---''), GenerateContent m p (tools_config t),
       Print (''Error during '' @ sn @ '': 503 UNAVAILABLE'')])"
  by (simp add: run_step_def attempts_list always_unavailable_def Let_def rate_limited_samples)

lemma run_agent_safe_unavailable:
  "run_agent_safe always_unavailable_adk n ag p sn =
     ([], Suc n,
      [Print (nl @ ''--- '' @ sn @ '' ---''), RunnerRun ag p,
       Print (''Error during '' @ sn @ '': 503 UNAVAILABLE'')])"
  by (simp add: run_agent_safe_def attempts_list always_unavailable_adk_def
      rate_limited_samples)

lemma search_prompt_sample:
  "\<exists>prompt. search_prompt sample_requirements = Inr prompt"
  "\<exists>prompt. search_prompt_adk sample_requirements = Inr prompt"
  by (simp_all add: search_prompt_def search_prompt_adk_def dict_get_def sample_requirements_def)

lemma retrieve_sample:
  "\<exists>s. retrieve always_unavailable (initial_locals sample_requirements evs) = Inr s \<and>
       data_output s = [] \<and> requests s = 1"
proof -
  from search_prompt_sample(1) obtain prompt where
    "search_prompt sample_requirements = Inr prompt" by blast
  then show ?thesis
    by (simp add: retrieve_def user_reqs_initial run_step_unavailable)
qed

lemma retrieve_adk_sample:
  "\<exists>s. retrieve_adk always_unavailable_adk (initial_locals sample_requirements evs) = Inr s \<and>
       data_output s = []"
proof -
  from search_prompt_sample(2) obtain prompt where
    "search_prompt_adk sample_requirements = Inr prompt" by blast
  then show ?thesis
    by (simp add: retrieve_adk_def user_reqs_initial run_agent_safe_unavailable)
qed

text \<open>
  Both pipelines on the sample lines against a backend that always fails with a server
  error, so that Stage 1 returns the empty text.
\<close>

theorem empty_retrieval_witness:
  "(\<exists>s1. main_adk plain_repr always_unavailable_adk sample_lines = Inr s1 \<and>
         data_output s1 = [] \<and> set (agents_run (trace s1)) \<subseteq> {data_agent}) \<and>
   (\<exists>s1. main plain_repr always_unavailable sample_lines =
           Inr (rank always_unavailable (score plain_repr always_unavailable s1)) \<and>
         data_output s1 = [] \<and> last (trace s1) = Print search_warning)"
proof -
  from retrieve_adk_sample obtain s1 where
    a: "retrieve_adk always_unavailable_adk (initial_locals sample_requirements
          (snd (snd (collect_user_requirements_adk sample_lines)) @
           print_structured_requirements sample_requirements)) = Inr s1"
    and a': "data_output s1 = []" by blast
  from retrieve_sample obtain s1' where
    g: "retrieve always_unavailable (initial_locals sample_requirements
          (snd (snd (collect_user_requirements sample_lines)) @
           [Print (nl @ ''Collected Requirements: '' @
                   str_dict plain_repr sample_requirements)])) = Inr s1'"
    and g': "data_output s1' = []" by blast
  from collect_sample a a' g g'
    empty_retrieval [of sample_lines sample_requirements always_unavailable_adk s1 plain_repr
      sample_lines sample_requirements always_unavailable plain_repr s1']
  show ?thesis by blast
qed

text \<open>
  In football_system.py an empty Stage 1 result does not stop the pipeline: against a
  backend that always fails, \<^verbatim>\<open>main\<close> returns normally with \<open>data_output\<close> empty after
  three requests, one per stage, and the request of Stage 2, built on the empty candidate
  data, is among the events.
\<close>

theorem empty_retrieval_counterexample:
  "\<not> isl (main plain_repr always_unavailable sample_lines) \<and>
   data_output (projr (main plain_repr always_unavailable sample_lines)) = [] \<and>
   requests (projr (main plain_repr always_unavailable sample_lines)) = 3 \<and>
   GenerateContent default_model_name (scoring_prompt plain_repr sample_requirements []) None
     \<in> set (trace (projr (main plain_repr always_unavailable sample_lines)))"
proof -
  from retrieve_sample obtain s1 where
    g: "retrieve always_unavailable (initial_locals sample_requirements
          (snd (snd (collect_user_requirements sample_lines)) @
           [Print (nl @ ''Collected Requirements: '' @
                   str_dict plain_repr sample_requirements)])) = Inr s1"
    and d: "data_output s1 = []" and r: "requests s1 = 1" by blast
  from retrieve_Inr [OF g] have u: "user_reqs s1 = sample_requirements"
    by (auto simp: user_reqs_initial)
  from main_collected [OF collect_sample(1), of plain_repr always_unavailable] g
  have m: "main plain_repr always_unavailable sample_lines =
             Inr (rank always_unavailable (score plain_repr always_unavailable s1))"
    by simp
  have rq: "requests (rank always_unavailable (score plain_repr always_unavailable s1)) = 3"
    using r by (simp add: rank_def score_def run_step_unavailable)
  have "GenerateContent default_model_name (scoring_prompt plain_repr sample_requirements []) None
          \<in> set (trace (score plain_repr always_unavailable s1))"
    using score_fields(4) [of plain_repr s1 always_unavailable] u d by simp
  with rank_fields(3) [of "score plain_repr always_unavailable s1" always_unavailable]
  have t: "GenerateContent default_model_name
             (scoring_prompt plain_repr sample_requirements []) None
          \<in> set (trace (rank always_unavailable (score plain_repr always_unavailable s1)))"
    by blast
  show ?thesis
    unfolding m using d rq t by (simp add: rank_fields(2) score_fields(2))
qed

text \<open>
  Claim C9. Each stage of either pipeline leaves \<open>user_reqs\<close> as it found it, and when
  \<^verbatim>\<open>main\<close> returns, \<open>user_reqs\<close> is still the dictionary that the collector returned.
\<close>

theorem requirements_read_only:
  "(retrieve be s = Inr s' \<longrightarrow> user_reqs s' = user_reqs s) \<and>
   user_reqs (score repr be s) = user_reqs s \<and>
   user_reqs (rank be s) = user_reqs s \<and>
   (main repr be ins = Inr sf \<longrightarrow> fst (collect_user_requirements ins) = Inr (user_reqs sf)) \<and>
   (retrieve_adk bk a = Inr a' \<longrightarrow> user_reqs a' = user_reqs a) \<and>
   user_reqs (score_adk repr bk a) = user_reqs a \<and>
   user_reqs (rank_adk bk a) = user_reqs a \<and>
   (main_adk repr bk ins' = Inr af \<longrightarrow>
      fst (collect_user_requirements_adk ins') = Inr (user_reqs af))"
proof (intro conjI impI)
  assume "retrieve be s = Inr s'"
  from retrieve_Inr [OF this] show "user_reqs s' = user_reqs s" by blast
next
  show "user_reqs (score repr be s) = user_reqs s" by (rule score_fields(1))
  show "user_reqs (rank be s) = user_reqs s" by (rule rank_fields(1))
  show "user_reqs (score_adk repr bk a) = user_reqs a" by (rule score_adk_user_reqs)
  show "user_reqs (rank_adk bk a) = user_reqs a" by (rule rank_adk_user_reqs)
next
  assume "retrieve_adk bk a = Inr a'"
  from retrieve_adk_Inr [OF this] show "user_reqs a' = user_reqs a" by auto
next
  assume m: "main repr be ins = Inr sf"
  from main_Inr_collected [OF m] obtain reqs where
    c: "fst (collect_user_requirements ins) = Inr reqs" by blast
  let ?s0 = "initial_locals reqs (snd (snd (collect_user_requirements ins)) @
               [Print (nl @ ''Collected Requirements: '' @ str_dict repr reqs)])"
  from main_collected [OF c, of repr be] m obtain s1 where
    r: "retrieve be ?s0 = Inr s1" and sf: "sf = rank be (score repr be s1)"
    by (cases "retrieve be ?s0") auto
  from retrieve_Inr [OF r] have "user_reqs s1 = reqs"
    by (auto simp: user_reqs_initial)
  with sf have "user_reqs sf = reqs"
    by (simp add: rank_fields(1) score_fields(1))
  with c show "fst (collect_user_requirements ins) = Inr (user_reqs sf)" by simp
next
  assume m: "main_adk repr bk ins' = Inr af"
  from main_adk_Inr_collected [OF m] obtain reqs where
    c: "fst (collect_user_requirements_adk ins') = Inr reqs" by blast
  let ?s0 = "initial_locals reqs (snd (snd (collect_user_requirements_adk ins')) @
               print_structured_requirements reqs)"
  from main_adk_collected [OF c, of repr bk] m obtain s1 where
    r: "retrieve_adk bk ?s0 = Inr s1" and
    af: "af = s1 \<or> af = score_adk repr bk s1 \<or> af = rank_adk bk (score_adk repr bk s1)"
    by (cases "retrieve_adk bk ?s0") (auto split: if_splits)
  from retrieve_adk_Inr [OF r] have "user_reqs s1 = reqs"
    by (auto simp: user_reqs_initial)
  with af have "user_reqs af = reqs"
    by (auto simp: rank_adk_user_reqs score_adk_user_reqs)
  with c show "fst (collect_user_requirements_adk ins') = Inr (user_reqs af)" by simp
qed

lemma retrieve_returns:
  assumes "search_prompt (user_reqs s) = Inr prompt"
  shows "\<exists>s'. retrieve be s = Inr s'"
  using assms by (simp add: retrieve_def split: prod.splits)

lemma retrieve_adk_returns:
  assumes "search_prompt_adk (user_reqs s) = Inr prompt"
  shows "\<exists>s'. retrieve_adk be s = Inr s'"
  using assms by (simp add: retrieve_adk_def split: prod.splits)

lemma main_returns:
  assumes "fst (collect_user_requirements ins) = Inr reqs"
    and "search_prompt reqs = Inr prompt"
  shows "\<exists>sf. main repr be ins = Inr sf"
proof -
  let ?s0 = "initial_locals reqs (snd (snd (collect_user_requirements ins)) @
               [Print (nl @ ''Collected Requirements: '' @ str_dict repr reqs)])"
  from assms(2) have "search_prompt (user_reqs ?s0) = Inr prompt"
    by (simp add: user_reqs_initial)
  from retrieve_returns [OF this, of be] obtain s1 where "retrieve be ?s0 = Inr s1" by blast
  with main_collected [OF assms(1), of repr be] show ?thesis by simp
qed

lemma main_adk_returns:
  assumes "fst (collect_user_requirements_adk ins) = Inr reqs"
    and "search_prompt_adk reqs = Inr prompt"
  shows "\<exists>sf. main_adk repr be ins = Inr sf"
proof -
  let ?s0 = "initial_locals reqs (snd (snd (collect_user_requirements_adk ins)) @
               print_structured_requirements reqs)"
  from assms(2) have "search_prompt_adk (user_reqs ?s0) = Inr prompt"
    by (simp add: user_reqs_initial)
  from retrieve_adk_returns [OF this, of be] obtain s1 where "retrieve_adk be ?s0 = Inr s1"
    by blast
  with main_adk_collected [OF assms(1), of repr be] show ?thesis by simp
qed

text \<open>
  Both pipelines on the sample lines against a backend that answers after one rate-limit
  error.
\<close>

theorem requirements_read_only_witness:
  "(\<exists>s'. retrieve (limited_once ''Lionel Messi'') (initial_locals sample_requirements []) = Inr s' \<and>
         user_reqs s' = sample_requirements) \<and>
   (\<exists>sf. main plain_repr (limited_once ''Lionel Messi'') sample_lines = Inr sf \<and>
         user_reqs sf = sample_requirements) \<and>
   (\<exists>a'. retrieve_adk (limited_once_adk ''Lionel Messi'')
           (initial_locals sample_requirements []) = Inr a' \<and>
         user_reqs a' = sample_requirements) \<and>
   (\<exists>af. main_adk plain_repr (limited_once_adk ''Lionel Messi'') sample_lines = Inr af \<and>
         user_reqs af = sample_requirements)"
proof -
  from search_prompt_sample obtain p q where
    p: "search_prompt sample_requirements = Inr p" and
    q: "search_prompt_adk sample_requirements = Inr q" by blast
  from p have "search_prompt (user_reqs (initial_locals sample_requirements [])) = Inr p"
    by (simp add: user_reqs_initial)
  from retrieve_returns [OF this, of "limited_once ''Lionel Messi''"] obtain s' where
    s': "retrieve (limited_once ''Lionel Messi'') (initial_locals sample_requirements []) = Inr s'"
    by blast
  from q have "search_prompt_adk (user_reqs (initial_locals sample_requirements [])) = Inr q"
    by (simp add: user_reqs_initial)
  from retrieve_adk_returns [OF this, of "limited_once_adk ''Lionel Messi''"] obtain a' where
    a': "retrieve_adk (limited_once_adk ''Lionel Messi'')
           (initial_locals sample_requirements []) = Inr a'"
    by blast
  from main_returns [OF collect_sample(1) p, of plain_repr "limited_once ''Lionel Messi''"]
  obtain sf where sf: "main plain_repr (limited_once ''Lionel Messi'') sample_lines = Inr sf"
    by blast
  from main_adk_returns [OF collect_sample(2) q, of plain_repr "limited_once_adk ''Lionel Messi''"]
  obtain af where
    af: "main_adk plain_repr (limited_once_adk ''Lionel Messi'') sample_lines = Inr af"
    by blast
  from s' a' sf af collect_sample
    requirements_read_only [of "limited_once ''Lionel Messi''"
      "initial_locals sample_requirements []" s' plain_repr sample_lines sf
      "limited_once_adk ''Lionel Messi''" "initial_locals sample_requirements []" a'
      sample_lines af]
  show ?thesis by (simp add: user_reqs_initial)
qed

end
